theory Spec2Isabelle
  imports Main "HOL-Library.Multiset"
begin

section \<open>JavaScript values used by the server\<close>

text \<open>
  Strings are lists of characters, each a code unit below 256.  \<open>trim\<close> is
  \<^verbatim>\<open>String.prototype.trim\<close> on the white space among them (tab, line feed, vertical
  tab, form feed, carriage return, space and the no-break space \<open>0xA0\<close>); the white
  space characters beyond 255, which \<^verbatim>\<open>trim\<close> strips as well, have no counterpart
  here.  \<open>split_on\<close> is \<^verbatim>\<open>String.prototype.split\<close> with a one-character separator,
  which always yields at least one piece.
\<close>

definition is_space :: "char \<Rightarrow> bool" where
  "is_space c =
     (c \<in> set [CHR 0x09, CHR 0x0A, CHR 0x0B, CHR 0x0C, CHR 0x0D, CHR '' '', CHR 0xA0])"

definition trim :: "string \<Rightarrow> string" where
  "trim s = rev (dropWhile is_space (rev (dropWhile is_space s)))"

fun split_on :: "char \<Rightarrow> string \<Rightarrow> string list" where
  "split_on c [] = [[]]"
| "split_on c (x # xs) =
     (if x = c then [] # split_on c xs
      else (case split_on c xs of w # ws \<Rightarrow> (x # w) # ws | [] \<Rightarrow> [[x]]))"

text \<open>
  Decimal rendering of an integer inside a template literal.  Numbers are integers
  here; a fraction has no counterpart, and from \<open>10^21\<close> on the language switches to
  the exponent notation, which \<open>show_int\<close> does not.
\<close>

definition digit_char :: "nat \<Rightarrow> char" where
  "digit_char d = char_of (48 + d)"

fun show_nat :: "nat \<Rightarrow> string" where
  "show_nat n = (if n < 10 then [digit_char n] else show_nat (n div 10) @ [digit_char (n mod 10)])"

declare show_nat.simps [simp del]

definition show_int :: "int \<Rightarrow> string" where
  "show_int i = (if i < 0 then CHR ''-'' # show_nat (nat (- i)) else show_nat (nat i))"

text \<open>
  A value of type \<^verbatim>\<open>string | undefined\<close> is a \<open>string option\<close>.  It is truthy when it is
  a non-empty string; \<open>js_or\<close> is the operator \<^verbatim>\<open>||\<close> on two such values.
\<close>

definition truthy :: "string option \<Rightarrow> bool" where
  "truthy v = (case v of None \<Rightarrow> False | Some s \<Rightarrow> s \<noteq> [])"

definition js_or :: "string option \<Rightarrow> string option \<Rightarrow> string option" where
  "js_or a b = (if truthy a then a else b)"

text \<open>
  A thrown value: the \<^verbatim>\<open>name\<close> and \<^verbatim>\<open>message\<close> of the \<^verbatim>\<open>Error\<close> object, the
  \<^verbatim>\<open>code\<close> tag of a \<^verbatim>\<open>GoDocError\<close> when one was assigned, and the wrapped cause kept in
  \<^verbatim>\<open>details\<close>.
\<close>

datatype exn = Exn (name: string) (message: string) (code: "string option") (details: "exn option")

definition Error :: "string \<Rightarrow> exn" where
  "Error msg = Exn ''Error'' msg None None"

definition TypeError :: "string \<Rightarrow> exn" where
  "TypeError msg = Exn ''TypeError'' msg None None"

definition GoDocError :: "string \<Rightarrow> string \<Rightarrow> exn option \<Rightarrow> exn" where
  "GoDocError c msg d = Exn ''Error'' msg (Some c) d"

text \<open>The four kinds of \<^verbatim>\<open>GoDocError.code\<close> (types/index.ts).\<close>

definition error_kinds :: "string list" where
  "error_kinds = [''NOT_FOUND'', ''PARSE_ERROR'', ''NETWORK_ERROR'', ''TIMEOUT'']"

text \<open>
  What one \<^verbatim>\<open>fetch\<close> call does: the promise rejects (an abort by the timeout
  controller rejects with an error named \<^verbatim>\<open>AbortError\<close>), or it resolves to a response
  with a status, a status text and a body whose reading may itself fail.  The network is a
  function from the requested URL to that outcome.
\<close>

datatype http_outcome =
    Rejected exn
  | Response (status: nat) (statusText: string) (response_text: "exn + string")

definition ok :: "nat \<Rightarrow> bool" where
  "ok st = (200 \<le> st \<and> st \<le> 299)"

section \<open>Version Index Client (fetcher/module-index.ts)\<close>

text \<open>
  The rows of the index and the answer of \<open>getPackageVersions\<close>.  The interface declares
  the fields of a row as strings; a row built from a line that lacks a field holds
  \<^verbatim>\<open>undefined\<close> there, hence the options.  The fetcher keeps the snapshot and the clock
  reading of the last successful fetch; its timeout shows only in the outcome of the
  fetch.
\<close>

record VersionInfo =
  version :: "string option"
  timestamp :: "string option"

record ModuleVersion = VersionInfo +
  path :: "string option"

record PackageVersions =
  pv_path :: string
  versions :: "VersionInfo list"
  latest :: "string option"

record ModuleIndexFetcher =
  cachedIndex :: "ModuleVersion list option"
  lastFetchTime :: int

definition indexUrl :: string where
  "indexUrl = ''https://index.golang.org/index''"

definition indexCacheTTL :: int where
  "indexCacheTTL = 3600000"

definition new_ModuleIndexFetcher :: ModuleIndexFetcher where
  "new_ModuleIndexFetcher = \<lparr>cachedIndex = None, lastFetchTime = 0\<rparr>"

text \<open>
  \<^verbatim>\<open>JSON.parse\<close> is a parameter.  On a line of the feed it throws (\<open>None\<close>), returns
  \<^verbatim>\<open>null\<close> (\<open>JNull\<close>), or returns a value whose properties are the given association
  list (\<open>JRecord\<close>); reading a property that is not listed gives \<^verbatim>\<open>undefined\<close>.  The
  properties of a record of the feed are strings: a property with a value of another
  type has no counterpart here and would have to be left out of the list.
\<close>

datatype parsed = JNull | JRecord "(string \<times> string) list"

definition get_prop :: "(string \<times> string) list \<Rightarrow> string \<Rightarrow> string option" where
  "get_prop kvs k = map_of kvs k"

text \<open>
  The body of the loop over the lines: \<open>None\<close> when the inner \<^verbatim>\<open>try\<close> catches (the
  \<^verbatim>\<open>SyntaxError\<close> of \<^verbatim>\<open>JSON.parse\<close>, or the \<^verbatim>\<open>TypeError\<close> of reading a property of
  \<^verbatim>\<open>null\<close>) and the line is only logged, the pushed row otherwise.
\<close>

definition parse_line :: "(string \<Rightarrow> parsed option) \<Rightarrow> string \<Rightarrow> ModuleVersion option" where
  "parse_line JSON_parse line =
     (case JSON_parse line of
        None \<Rightarrow> None
      | Some JNull \<Rightarrow> None
      | Some (JRecord p) \<Rightarrow>
          Some \<lparr>version = js_or (get_prop p ''Version'') (get_prop p ''version''),
                timestamp = js_or (get_prop p ''Timestamp'') (get_prop p ''timestamp''),
                path = js_or (get_prop p ''Path'') (get_prop p ''path'')\<rparr>)"

fun parse_lines :: "(string \<Rightarrow> parsed option) \<Rightarrow> string list \<Rightarrow> ModuleVersion list" where
  "parse_lines JSON_parse [] = []"
| "parse_lines JSON_parse (line # lines) =
     (case parse_line JSON_parse line of
        None \<Rightarrow> parse_lines JSON_parse lines
      | Some m \<Rightarrow> m # parse_lines JSON_parse lines)"

text \<open>The \<^verbatim>\<open>try\<close> block of \<open>fetchIndex\<close>, then its \<^verbatim>\<open>catch\<close>.\<close>

definition fetchIndex_try :: "(string \<Rightarrow> parsed option) \<Rightarrow> http_outcome \<Rightarrow> exn + ModuleVersion list" where
  "fetchIndex_try JSON_parse out =
     (case out of
        Rejected e \<Rightarrow> Inl e
      | Response st stText bd \<Rightarrow>
          if \<not> ok st then Inl (Error (''HTTP '' @ show_nat st @ '': '' @ stText))
          else (case bd of
                  Inl e \<Rightarrow> Inl e
                | Inr txt \<Rightarrow> Inr (parse_lines JSON_parse (split_on CHR 0x0A (trim txt)))))"

definition fetchIndex :: "(string \<Rightarrow> parsed option) \<Rightarrow> (string \<Rightarrow> http_outcome) \<Rightarrow> exn + ModuleVersion list" where
  "fetchIndex JSON_parse net =
     (case fetchIndex_try JSON_parse (net indexUrl) of
        Inr modules \<Rightarrow> Inr modules
      | Inl error \<Rightarrow>
          if name error = ''AbortError'' then Inl (Error ''Module index fetch timeout'')
          else Inl (Error (''Failed to fetch module index: '' @ message error)))"

text \<open>
  \<open>getIndex\<close> at clock reading \<open>now\<close> (\<^verbatim>\<open>Date.now()\<close>): the result, the fetcher afterwards
  and the URLs requested from the network.
\<close>

definition getIndex ::
  "(string \<Rightarrow> parsed option) \<Rightarrow> (string \<Rightarrow> http_outcome) \<Rightarrow> int \<Rightarrow> ModuleIndexFetcher
     \<Rightarrow> (exn + ModuleVersion list) \<times> ModuleIndexFetcher \<times> string list" where
  "getIndex JSON_parse net now s =
     (case cachedIndex s of
        Some idx \<Rightarrow>
          if now - lastFetchTime s < indexCacheTTL then (Inr idx, s, [])
          else (case fetchIndex JSON_parse net of
                  Inl e \<Rightarrow> (Inl e, s, [indexUrl])
                | Inr ms \<Rightarrow> (Inr ms, s\<lparr>cachedIndex := Some ms, lastFetchTime := now\<rparr>, [indexUrl]))
      | None \<Rightarrow>
          (case fetchIndex JSON_parse net of
             Inl e \<Rightarrow> (Inl e, s, [indexUrl])
           | Inr ms \<Rightarrow> (Inr ms, s\<lparr>cachedIndex := Some ms, lastFetchTime := now\<rparr>, [indexUrl])))"

text \<open>
  The comparator of the two sorts.  \<open>Date_getTime\<close> is \<^verbatim>\<open>new Date(s).getTime()\<close> on a
  string, \<open>None\<close> for \<^verbatim>\<open>NaN\<close>; an \<^verbatim>\<open>undefined\<close> time stamp gives \<^verbatim>\<open>NaN\<close> as well.  A
  comparator result of \<^verbatim>\<open>NaN\<close> counts as \<open>0\<close> in \<^verbatim>\<open>Array.prototype.sort\<close>.
\<close>

definition getTime :: "(string \<Rightarrow> int option) \<Rightarrow> string option \<Rightarrow> int option" where
  "getTime Date_getTime ts = (case ts of None \<Rightarrow> None | Some s \<Rightarrow> Date_getTime s)"

definition newest_first :: "(string \<Rightarrow> int option) \<Rightarrow> VersionInfo \<Rightarrow> VersionInfo \<Rightarrow> int" where
  "newest_first Date_getTime a b =
     (case (getTime Date_getTime (timestamp b), getTime Date_getTime (timestamp a)) of
        (Some tb, Some ta) \<Rightarrow> tb - ta
      | _ \<Rightarrow> 0)"

text \<open>
  \<^verbatim>\<open>Array.prototype.sort\<close> is stable: an element goes before the first later element
  that the comparator does not put ahead of it.  This is the order of the language
  where the comparator is consistent, that is, here, where every time stamp compared is
  a date; with a \<^verbatim>\<open>NaN\<close> among the comparisons the language leaves the order to the
  engine, and \<open>array_sort\<close> gives one such order.
\<close>

fun insert_sorted :: "('a \<Rightarrow> 'a \<Rightarrow> int) \<Rightarrow> 'a \<Rightarrow> 'a list \<Rightarrow> 'a list" where
  "insert_sorted cmp x [] = [x]"
| "insert_sorted cmp x (y # ys) =
     (if cmp x y \<le> 0 then x # y # ys else y # insert_sorted cmp x ys)"

definition array_sort :: "('a \<Rightarrow> 'a \<Rightarrow> int) \<Rightarrow> 'a list \<Rightarrow> 'a list" where
  "array_sort cmp xs = foldr (insert_sorted cmp) xs []"

text \<open>
  \<^verbatim>\<open>v.version.includes('-')\<close>: a \<^verbatim>\<open>TypeError\<close> when the version is \<^verbatim>\<open>undefined\<close>.
  \<open>stable_filter\<close> is \<^verbatim>\<open>versions.filter(v => !v.version.includes('-'))\<close>, which
  stops at the first element whose callback throws.
\<close>

definition includes_hyphen :: "string option \<Rightarrow> exn + bool" where
  "includes_hyphen v =
     (case v of
        None \<Rightarrow> Inl (TypeError (''Cannot read properties of undefined (reading ''
                             @ [CHR 0x27] @ ''includes'' @ [CHR 0x27] @ '')''))
      | Some s \<Rightarrow> Inr (CHR ''-'' \<in> set s))"

fun stable_filter :: "VersionInfo list \<Rightarrow> exn + VersionInfo list" where
  "stable_filter [] = Inr []"
| "stable_filter (v # vs) =
     (case includes_hyphen (version v) of
        Inl e \<Rightarrow> Inl e
      | Inr b \<Rightarrow>
          (case stable_filter vs of
             Inl e \<Rightarrow> Inl e
           | Inr r \<Rightarrow> Inr (if \<not> b then v # r else r)))"

text \<open>The part of \<open>getPackageVersions\<close> after the index has been obtained.\<close>

definition versions_of :: "(string \<Rightarrow> int option) \<Rightarrow> ModuleVersion list \<Rightarrow> string \<Rightarrow> VersionInfo list" where
  "versions_of Date_getTime index packagePath =
     array_sort (newest_first Date_getTime)
       (map (\<lambda>m. \<lparr>version = version m, timestamp = timestamp m\<rparr>)
          (filter (\<lambda>m. path m = Some packagePath) index))"

definition packageVersions ::
  "(string \<Rightarrow> int option) \<Rightarrow> ModuleVersion list \<Rightarrow> string \<Rightarrow> exn + PackageVersions option" where
  "packageVersions Date_getTime index packagePath =
     (let vs = versions_of Date_getTime index packagePath in
      case vs of
        [] \<Rightarrow> Inr None
      | v0 # _ \<Rightarrow>
          (case stable_filter vs of
             Inl e \<Rightarrow> Inl e
           | Inr stableVersions \<Rightarrow>
               Inr (Some \<lparr>pv_path = packagePath, versions = vs,
                          latest = (case stableVersions of s0 # _ \<Rightarrow> version s0 | [] \<Rightarrow> version v0)\<rparr>)))"

definition getPackageVersions ::
  "(string \<Rightarrow> int option) \<Rightarrow> (string \<Rightarrow> parsed option) \<Rightarrow> (string \<Rightarrow> http_outcome) \<Rightarrow> int
     \<Rightarrow> ModuleIndexFetcher \<Rightarrow> string
     \<Rightarrow> (exn + PackageVersions option) \<times> ModuleIndexFetcher \<times> string list" where
  "getPackageVersions Date_getTime JSON_parse net now s packagePath =
     (case getIndex JSON_parse net now s of
        (Inl e, s', reqs) \<Rightarrow> (Inl e, s', reqs)
      | (Inr index, s', reqs) \<Rightarrow> (packageVersions Date_getTime index packagePath, s', reqs))"

definition getLatestVersion ::
  "(string \<Rightarrow> int option) \<Rightarrow> (string \<Rightarrow> parsed option) \<Rightarrow> (string \<Rightarrow> http_outcome) \<Rightarrow> int
     \<Rightarrow> ModuleIndexFetcher \<Rightarrow> string
     \<Rightarrow> (exn + string option) \<times> ModuleIndexFetcher \<times> string list" where
  "getLatestVersion Date_getTime JSON_parse net now s packagePath =
     (case getPackageVersions Date_getTime JSON_parse net now s packagePath of
        (Inl e, s', reqs) \<Rightarrow> (Inl e, s', reqs)
      | (Inr None, s', reqs) \<Rightarrow> (Inr None, s', reqs)
      | (Inr (Some pv), s', reqs) \<Rightarrow> (Inr (js_or (latest pv) None), s', reqs))"

text \<open>
  Vocabulary of the statements about the version index: \<open>not_older a b\<close> says that both
  time stamps are dates and that of \<open>a\<close> is at least that of \<open>b\<close>; a version is
  \<open>hyphen_free\<close> when it is a string with no hyphen in it.
\<close>

definition dated :: "(string \<Rightarrow> int option) \<Rightarrow> VersionInfo \<Rightarrow> bool" where
  "dated Date_getTime v = (getTime Date_getTime (timestamp v) \<noteq> None)"

definition not_older :: "(string \<Rightarrow> int option) \<Rightarrow> VersionInfo \<Rightarrow> VersionInfo \<Rightarrow> bool" where
  "not_older Date_getTime a b =
     (case (getTime Date_getTime (timestamp a), getTime Date_getTime (timestamp b)) of
        (Some ta, Some tb) \<Rightarrow> tb \<le> ta
      | _ \<Rightarrow> False)"

definition hyphen_free :: "VersionInfo \<Rightarrow> bool" where
  "hyphen_free v = (case version v of None \<Rightarrow> False | Some s \<Rightarrow> CHR ''-'' \<notin> set s)"

text \<open>
  Fixtures of tests/integration/module-index.test.ts: the feed with a pre-release newer
  than the stable version, and the feed with a malformed line.  \<open>sample_JSON_parse\<close> is
  \<^verbatim>\<open>JSON.parse\<close> on the lines of these two feeds, \<open>sample_Date\<close> is \<^verbatim>\<open>Date\<close> on their
  time stamps (milliseconds since the epoch).
\<close>

definition pre1 :: string where
  \<open>pre1 = ''{"Path":"test/pkg","Version":"v2.0.0-beta.1","Timestamp":"2023-12-01T00:00:00Z"}''\<close>

definition pre2 :: string where
  \<open>pre2 = ''{"Path":"test/pkg","Version":"v1.9.0","Timestamp":"2023-11-01T00:00:00Z"}''\<close>

definition pre3 :: string where
  \<open>pre3 = ''{"Path":"test/pkg","Version":"v2.0.0-alpha.1","Timestamp":"2023-10-01T00:00:00Z"}''\<close>

definition indexWithPrerelease :: string where
  "indexWithPrerelease = pre1 @ [CHR 0x0A] @ pre2 @ [CHR 0x0A] @ pre3"

definition good1 :: string where
  \<open>good1 = ''{"Path":"good/package","Version":"v1.0.0","Timestamp":"2023-01-01T00:00:00Z"}''\<close>

definition good2 :: string where
  \<open>good2 = ''{"Path":"another/package","Version":"v1.0.0","Timestamp":"2023-01-01T00:00:00Z"}''\<close>

definition malformedIndex :: string where
  "malformedIndex = good1 @ [CHR 0x0A] @ ''this is not json'' @ [CHR 0x0A] @ good2"

definition sample_record :: "string \<Rightarrow> string \<Rightarrow> string \<Rightarrow> parsed" where
  "sample_record p v t = JRecord [(''Path'', p), (''Version'', v), (''Timestamp'', t)]"

definition sample_JSON_parse :: "string \<Rightarrow> parsed option" where
  "sample_JSON_parse line =
     (if line = pre1 then Some (sample_record ''test/pkg'' ''v2.0.0-beta.1'' ''2023-12-01T00:00:00Z'')
      else if line = pre2 then Some (sample_record ''test/pkg'' ''v1.9.0'' ''2023-11-01T00:00:00Z'')
      else if line = pre3 then Some (sample_record ''test/pkg'' ''v2.0.0-alpha.1'' ''2023-10-01T00:00:00Z'')
      else if line = good1 then Some (sample_record ''good/package'' ''v1.0.0'' ''2023-01-01T00:00:00Z'')
      else if line = good2 then Some (sample_record ''another/package'' ''v1.0.0'' ''2023-01-01T00:00:00Z'')
      else None)"

definition sample_Date :: "string \<Rightarrow> int option" where
  "sample_Date s =
     (if s = ''2023-12-01T00:00:00Z'' then Some 1701388800000
      else if s = ''2023-11-01T00:00:00Z'' then Some 1698796800000
      else if s = ''2023-10-01T00:00:00Z'' then Some 1696118400000
      else if s = ''2023-01-01T00:00:00Z'' then Some 1672531200000
      else None)"

text \<open>A feed of one line that names a path and a time stamp and no version.\<close>

definition versionless :: string where
  \<open>versionless = ''{"Path":"p","Timestamp":"2023-01-01T00:00:00Z"}''\<close>

definition versionless_JSON_parse :: "string \<Rightarrow> parsed option" where
  "versionless_JSON_parse line =
     (if line = versionless
      then Some (JRecord [(''Path'', ''p''), (''Timestamp'', ''2023-01-01T00:00:00Z'')])
      else None)"

definition serve :: "string \<Rightarrow> string \<Rightarrow> http_outcome" where
  "serve txt url = Response 200 ''OK'' (Inr txt)"

definition timed_out :: "string \<Rightarrow> http_outcome" where
  "timed_out url = Rejected (Exn ''AbortError'' ''This operation was aborted'' None None)"

section \<open>Document Cache (cache/index.ts)\<close>

record 'v CacheEntry =
  data :: 'v
  entry_timestamp :: int
  ttl :: int

text \<open>
  The statistics object of the underlying store, and the options the constructor of
  \<open>DocumentationCache\<close> hands to it.
\<close>

record Stats =
  hits :: nat
  misses :: nat
  keys :: nat
  ksize :: nat
  vsize :: nat

record NodeCacheOptions =
  stdTTL :: int
  checkperiod :: int
  maxKeys :: int
  useClones :: bool

text \<open>
  The methods of the underlying store that \<open>DocumentationCache\<close> calls, over a store
  state \<open>'s\<close>.  \<^verbatim>\<open>get\<close> and \<^verbatim>\<open>set\<close> stand inside a \<^verbatim>\<open>try\<close> in the source, so they may
  throw here; both read the clock (\<open>now\<close>).
\<close>

record ('s, 'v) NodeCache =
  nc_new :: "NodeCacheOptions \<Rightarrow> 's"
  nc_get :: "string \<Rightarrow> int \<Rightarrow> 's \<Rightarrow> (exn + 'v option) \<times> 's"
  nc_set :: "string \<Rightarrow> 'v \<Rightarrow> int \<Rightarrow> int \<Rightarrow> 's \<Rightarrow> (exn + bool) \<times> 's"
  nc_has :: "string \<Rightarrow> int \<Rightarrow> 's \<Rightarrow> bool \<times> 's"
  nc_del :: "string \<Rightarrow> 's \<Rightarrow> nat \<times> 's"
  nc_flushAll :: "'s \<Rightarrow> 's"
  nc_keys :: "'s \<Rightarrow> string list"
  nc_getStats :: "'s \<Rightarrow> Stats"

record CacheOptions =
  opt_stdTTL :: "int option"
  opt_checkperiod :: "int option"
  opt_maxKeys :: "int option"

record 's DocumentationCache =
  cache :: 's
  defaultTTL :: int

text \<open>\<^verbatim>\<open>n || d\<close> on an optional number: \<^verbatim>\<open>undefined\<close> and \<^verbatim>\<open>0\<close> are falsy.\<close>

definition num_or :: "int option \<Rightarrow> int \<Rightarrow> int" where
  "num_or n d = (case n of None \<Rightarrow> d | Some v \<Rightarrow> if v = 0 then d else v)"

definition new_DocumentationCache ::
  "('s, 'v CacheEntry) NodeCache \<Rightarrow> CacheOptions option \<Rightarrow> 's DocumentationCache" where
  "new_DocumentationCache nc options =
     (let dflt = num_or (Option.bind options opt_stdTTL) 3600 in
      \<lparr>cache = nc_new nc
          \<lparr>stdTTL = dflt,
           checkperiod = num_or (Option.bind options opt_checkperiod) 600,
           maxKeys = num_or (Option.bind options opt_maxKeys) 1000,
           useClones = False\<rparr>,
       defaultTTL = dflt\<rparr>)"

text \<open>
  \<^verbatim>\<open>try { body } catch (error) { handler }\<close> over a state: the handler runs in the state
  the body left behind.
\<close>

definition try_catch ::
  "(exn + 'a) \<times> 's \<Rightarrow> (exn \<Rightarrow> 's \<Rightarrow> (exn + 'a) \<times> 's) \<Rightarrow> (exn + 'a) \<times> 's" where
  "try_catch blk handler = (case blk of (Inl e, s) \<Rightarrow> handler e s | (Inr v, s) \<Rightarrow> (Inr v, s))"

definition DocumentationCache_get ::
  "('s, 'v CacheEntry) NodeCache \<Rightarrow> string \<Rightarrow> int \<Rightarrow> 's DocumentationCache
     \<Rightarrow> (exn + 'v option) \<times> 's DocumentationCache" where
  "DocumentationCache_get nc key now c =
     (case try_catch
             (case nc_get nc key now (cache c) of
                (Inl e, s) \<Rightarrow> (Inl e, s)
              | (Inr (Some entry), s) \<Rightarrow> (Inr (Some (data entry)), s)
              | (Inr None, s) \<Rightarrow> (Inr None, s))
             (\<lambda>error s. (Inr None, s))
      of (r, s) \<Rightarrow> (r, c\<lparr>cache := s\<rparr>))"

definition DocumentationCache_set ::
  "('s, 'v CacheEntry) NodeCache \<Rightarrow> string \<Rightarrow> 'v \<Rightarrow> int option \<Rightarrow> int \<Rightarrow> 's DocumentationCache
     \<Rightarrow> (exn + bool) \<times> 's DocumentationCache" where
  "DocumentationCache_set nc key v ttl_arg now c =
     (case try_catch
             (let entry = \<lparr>data = v, entry_timestamp = now, ttl = num_or ttl_arg (defaultTTL c)\<rparr>
              in nc_set nc key entry (num_or ttl_arg (defaultTTL c)) now (cache c))
             (\<lambda>error s. (Inr False, s))
      of (r, s) \<Rightarrow> (r, c\<lparr>cache := s\<rparr>))"

definition DocumentationCache_has ::
  "('s, 'v CacheEntry) NodeCache \<Rightarrow> string \<Rightarrow> int \<Rightarrow> 's DocumentationCache
     \<Rightarrow> bool \<times> 's DocumentationCache" where
  "DocumentationCache_has nc key now c =
     (case nc_has nc key now (cache c) of (b, s) \<Rightarrow> (b, c\<lparr>cache := s\<rparr>))"

definition DocumentationCache_delete ::
  "('s, 'v CacheEntry) NodeCache \<Rightarrow> string \<Rightarrow> 's DocumentationCache
     \<Rightarrow> bool \<times> 's DocumentationCache" where
  "DocumentationCache_delete nc key c =
     (case nc_del nc key (cache c) of (n, s) \<Rightarrow> (0 < n, c\<lparr>cache := s\<rparr>))"

definition DocumentationCache_clear ::
  "('s, 'v CacheEntry) NodeCache \<Rightarrow> 's DocumentationCache \<Rightarrow> 's DocumentationCache" where
  "DocumentationCache_clear nc c = c\<lparr>cache := nc_flushAll nc (cache c)\<rparr>"

definition DocumentationCache_getStats ::
  "('s, 'v CacheEntry) NodeCache \<Rightarrow> 's DocumentationCache \<Rightarrow> Stats" where
  "DocumentationCache_getStats nc c =
     \<lparr>hits = hits (nc_getStats nc (cache c)),
      misses = misses (nc_getStats nc (cache c)),
      keys = length (nc_keys nc (cache c)),
      ksize = ksize (nc_getStats nc (cache c)),
      vsize = vsize (nc_getStats nc (cache c))\<rparr>"

text \<open>
  Modelled from the spec: the underlying store is the package \<^verbatim>\<open>node-cache\<close>, which is not
  among the sources.  The spec describes it as a key-value store with a time to live per
  entry, a capacity bound and hit, miss and key counters, whose entries expire
  independently and which, when the configured maximum key count would be exceeded,
  either rejects the write or evicts entries in an unspecified order.  The store keeps
  its options, the entries in insertion order, each with its value and the clock reading
  at which it expires (\<open>0\<close>: never), and the counters.  What happens to a write into a
  full store is a parameter (\<open>on_full\<close>, from the present keys and the incoming key):
  \<open>None\<close> rejects the write with an exception, \<open>Some victim\<close> evicts that key first.
  A negative maximum means no bound.
\<close>

record 'v Store =
  store_options :: NodeCacheOptions
  store_data :: "(string \<times> 'v \<times> int) list"
  store_stats :: Stats

record 'v StorePolicy =
  on_full :: "string list \<Rightarrow> string \<Rightarrow> string option"
  value_size :: "'v \<Rightarrow> nat"

definition store_new :: "NodeCacheOptions \<Rightarrow> 'v Store" where
  "store_new opts =
     \<lparr>store_options = opts, store_data = [],
      store_stats = \<lparr>hits = 0, misses = 0, keys = 0, ksize = 0, vsize = 0\<rparr>\<rparr>"

definition store_keys :: "'v Store \<Rightarrow> string list" where
  "store_keys s = map fst (store_data s)"

definition expired :: "int \<Rightarrow> int \<Rightarrow> bool" where
  "expired now t = (t \<noteq> 0 \<and> t < now)"

definition store_del :: "'v StorePolicy \<Rightarrow> string \<Rightarrow> 'v Store \<Rightarrow> nat \<times> 'v Store" where
  "store_del pol key s =
     (case map_of (store_data s) key of
        None \<Rightarrow> (0, s)
      | Some (v, t) \<Rightarrow>
          (1, s\<lparr>store_data := filter (\<lambda>kv. fst kv \<noteq> key) (store_data s),
                store_stats := (store_stats s)
                  \<lparr>keys := keys (store_stats s) - 1,
                   ksize := ksize (store_stats s) - length key,
                   vsize := vsize (store_stats s) - value_size pol v\<rparr>\<rparr>))"

definition count_hit :: "'v Store \<Rightarrow> 'v Store" where
  "count_hit s = s\<lparr>store_stats := (store_stats s)\<lparr>hits := hits (store_stats s) + 1\<rparr>\<rparr>"

definition count_miss :: "'v Store \<Rightarrow> 'v Store" where
  "count_miss s = s\<lparr>store_stats := (store_stats s)\<lparr>misses := misses (store_stats s) + 1\<rparr>\<rparr>"

definition store_get ::
  "'v StorePolicy \<Rightarrow> string \<Rightarrow> int \<Rightarrow> 'v Store \<Rightarrow> (exn + 'v option) \<times> 'v Store" where
  "store_get pol key now s =
     (case map_of (store_data s) key of
        None \<Rightarrow> (Inr None, count_miss s)
      | Some (v, t) \<Rightarrow>
          if expired now t then (Inr None, count_miss (snd (store_del pol key s)))
          else (Inr (Some v), count_hit s))"

definition store_has :: "'v StorePolicy \<Rightarrow> string \<Rightarrow> int \<Rightarrow> 'v Store \<Rightarrow> bool \<times> 'v Store" where
  "store_has pol key now s =
     (case map_of (store_data s) key of
        None \<Rightarrow> (False, s)
      | Some (v, t) \<Rightarrow>
          if expired now t then (False, snd (store_del pol key s)) else (True, s))"

definition store_put :: "'v StorePolicy \<Rightarrow> string \<Rightarrow> 'v \<Rightarrow> int \<Rightarrow> 'v Store \<Rightarrow> 'v Store" where
  "store_put pol key v t s =
     (case map_of (store_data s) key of
        Some (old, _) \<Rightarrow>
          s\<lparr>store_data := map (\<lambda>kv. if fst kv = key then (key, v, t) else kv) (store_data s),
            store_stats := (store_stats s)
              \<lparr>vsize := vsize (store_stats s) - value_size pol old + value_size pol v\<rparr>\<rparr>
      | None \<Rightarrow>
          s\<lparr>store_data := store_data s @ [(key, v, t)],
            store_stats := (store_stats s)
              \<lparr>keys := keys (store_stats s) + 1,
               ksize := ksize (store_stats s) + length key,
               vsize := vsize (store_stats s) + value_size pol v\<rparr>\<rparr>)"

definition ECACHEFULL :: exn where
  "ECACHEFULL = Exn ''ECACHEFULL'' ''Cache max keys amount exceeded'' None None"

definition store_set ::
  "'v StorePolicy \<Rightarrow> string \<Rightarrow> 'v \<Rightarrow> int \<Rightarrow> int \<Rightarrow> 'v Store \<Rightarrow> (exn + bool) \<times> 'v Store" where
  "store_set pol key v ttl_s now s =
     (let t = (if ttl_s = 0 then 0 else now + ttl_s * 1000) in
      if 0 \<le> maxKeys (store_options s) \<and> maxKeys (store_options s) \<le> int (keys (store_stats s))
      then (case on_full pol (store_keys s) key of
              None \<Rightarrow> (Inl ECACHEFULL, s)
            | Some victim \<Rightarrow>
                if victim \<in> set (store_keys s)
                then (Inr True, store_put pol key v t (snd (store_del pol victim s)))
                else (Inl ECACHEFULL, s))
      else (Inr True, store_put pol key v t s))"

definition store_flushAll :: "'v Store \<Rightarrow> 'v Store" where
  "store_flushAll s =
     s\<lparr>store_data := [],
       store_stats := \<lparr>hits = 0, misses = 0, keys = 0, ksize = 0, vsize = 0\<rparr>\<rparr>"

text \<open>The periodic sweep of the store: every expired entry is deleted.\<close>

definition store_sweep :: "'v StorePolicy \<Rightarrow> int \<Rightarrow> 'v Store \<Rightarrow> 'v Store" where
  "store_sweep pol now s =
     foldl (\<lambda>s' kv. if expired now (snd (snd kv)) then snd (store_del pol (fst kv) s') else s')
       s (store_data s)"

definition node_cache :: "'v StorePolicy \<Rightarrow> ('v Store, 'v) NodeCache" where
  "node_cache pol =
     \<lparr>nc_new = store_new,
      nc_get = store_get pol,
      nc_set = store_set pol,
      nc_has = store_has pol,
      nc_del = store_del pol,
      nc_flushAll = store_flushAll,
      nc_keys = store_keys,
      nc_getStats = store_stats\<rparr>"

text \<open>The store as the package behaves: a write into a full store is rejected.\<close>

definition rejecting :: "'v StorePolicy" where
  "rejecting = \<lparr>on_full = (\<lambda>ks k. None), value_size = (\<lambda>v. 0)\<rparr>"

text \<open>
  A sequence of cache operations, each at its clock reading; \<open>OpSweep\<close> is the store's
  timer running its periodic check.
\<close>

datatype 'v cache_op =
    OpGet string
  | OpSet string 'v "int option"
  | OpHas string
  | OpDelete string
  | OpClear
  | OpSweep

definition apply_op ::
  "'v CacheEntry StorePolicy \<Rightarrow> 'v CacheEntry Store DocumentationCache \<Rightarrow> int \<times> 'v cache_op
     \<Rightarrow> 'v CacheEntry Store DocumentationCache" where
  "apply_op pol c step =
     (case step of
        (now, OpGet k) \<Rightarrow> snd (DocumentationCache_get (node_cache pol) k now c)
      | (now, OpSet k v t) \<Rightarrow> snd (DocumentationCache_set (node_cache pol) k v t now c)
      | (now, OpHas k) \<Rightarrow> snd (DocumentationCache_has (node_cache pol) k now c)
      | (now, OpDelete k) \<Rightarrow> snd (DocumentationCache_delete (node_cache pol) k c)
      | (now, OpClear) \<Rightarrow> DocumentationCache_clear (node_cache pol) c
      | (now, OpSweep) \<Rightarrow> c\<lparr>cache := store_sweep pol now (cache c)\<rparr>)"

definition run_ops ::
  "'v CacheEntry StorePolicy \<Rightarrow> 'v CacheEntry Store DocumentationCache \<Rightarrow> (int \<times> 'v cache_op) list
     \<Rightarrow> 'v CacheEntry Store DocumentationCache" where
  "run_ops pol c steps = foldl (apply_op pol) c steps"

text \<open>
  The invariant of the store: the keys are distinct, the key counter is the number of
  entries, and a non-negative maximum bounds that number.
\<close>

definition store_inv :: "'v Store \<Rightarrow> bool" where
  "store_inv s =
     (distinct (map fst (store_data s))
      \<and> keys (store_stats s) = length (store_data s)
      \<and> (0 \<le> maxKeys (store_options s) \<longrightarrow>
            int (length (store_data s)) \<le> maxKeys (store_options s)))"

text \<open>
  The store as tests/unit/cache.test.ts mocks it: \<^verbatim>\<open>get\<close> and \<^verbatim>\<open>set\<close> throw.
\<close>

definition throwing_store :: "('v Store, 'v) NodeCache" where
  "throwing_store =
     (node_cache rejecting)
       \<lparr>nc_get := (\<lambda>k now s. (Inl (Error ''Internal error''), s)),
        nc_set := (\<lambda>k v t now s. (Inl (Error ''Internal error''), s))\<rparr>"

section \<open>Document Extractor (fetcher/index.ts)\<close>

record CodeExample =
  ex_name :: string
  ex_code :: string
  ex_output :: "string option"

record PackageDoc =
  pd_name :: string
  importPath :: string
  pd_version :: "string option"
  pd_synopsis :: string
  overview :: "string option"
  readme :: "string option"
  subdirectories :: "string list option"
  pd_imports :: "string list option"

record FunctionDoc =
  fn_name :: string
  signature :: string
  documentation :: string
  examples :: "CodeExample list option"
  packagePath :: string

record MethodDoc =
  m_name :: string
  m_signature :: string
  m_documentation :: string
  receiver :: "string option"

record TypeDoc =
  t_name :: string
  t_definition :: string
  t_documentation :: string
  methods :: "MethodDoc list option"
  t_packagePath :: string

record SearchResult =
  sr_path :: string
  sr_name :: string
  sr_synopsis :: string
  score :: "int option"

definition baseUrl :: string where
  "baseUrl = ''https://pkg.go.dev''"

text \<open>\<open>fetchHTML\<close>: the \<^verbatim>\<open>try\<close> block, then the \<^verbatim>\<open>catch\<close>.\<close>

definition fetchHTML_try :: "string \<Rightarrow> http_outcome \<Rightarrow> exn + string" where
  "fetchHTML_try url out =
     (case out of
        Rejected e \<Rightarrow> Inl e
      | Response st stText bd \<Rightarrow>
          if \<not> ok st then
            (if st = 404 then Inl (GoDocError ''NOT_FOUND'' (''Package not found: '' @ url) None)
             else Inl (Error (''HTTP '' @ show_nat st @ '': '' @ stText)))
          else bd)"

definition fetchHTML :: "(string \<Rightarrow> http_outcome) \<Rightarrow> string \<Rightarrow> exn + string" where
  "fetchHTML net url =
     (case fetchHTML_try url (net url) of
        Inr html \<Rightarrow> Inr html
      | Inl error \<Rightarrow>
          if name error = ''AbortError''
          then Inl (GoDocError ''TIMEOUT'' (''Request timeout: '' @ url) None)
          else if truthy (code error) then Inl error
          else Inl (GoDocError ''NETWORK_ERROR'' (''Network error: '' @ message error) (Some error)))"

definition package_url :: "string \<Rightarrow> string option \<Rightarrow> string" where
  "package_url pkg ver =
     (case ver of
        Some v \<Rightarrow> if v \<noteq> [] then baseUrl @ ''/'' @ pkg @ ''@'' @ v else baseUrl @ ''/'' @ pkg
      | None \<Rightarrow> baseUrl @ ''/'' @ pkg)"

text \<open>\<^verbatim>\<open>a || b\<close> on two strings.\<close>

definition str_or :: "string \<Rightarrow> string \<Rightarrow> string" where
  "str_or a b = (if a \<noteq> [] then a else b)"

text \<open>
  The page as the extractor sees it through the DOM library.  For \<open>getFunctionDoc\<close>: the
  elements matched by \<^verbatim>\<open>[data-kind="function"]\<close>, each with the \<^verbatim>\<open>id\<close> of the \<^verbatim>\<open>h4\<close> of
  its function header, the text of its declaration, the text of its first content block
  and its example blocks (header, code and output text).  The query is a parameter from
  the fetched HTML to these elements; it may throw.
\<close>

record example_element =
  header_text :: string
  code_text :: string
  output_text :: string

record function_element =
  h4_id :: "string option"
  declaration_text :: string
  content_text :: string
  exampleDetails :: "example_element list"

definition push_example :: "CodeExample list \<Rightarrow> example_element \<Rightarrow> CodeExample list" where
  "push_example exs ex =
     (let exampleName = trim (header_text ex);
          c = trim (code_text ex);
          out = trim (output_text ex)
      in if c \<noteq> []
         then exs @ [\<lparr>ex_name = str_or exampleName ''Example'', ex_code = c,
                      ex_output = (if out \<noteq> [] then Some out else None)\<rparr>]
         else exs)"

text \<open>
  The callback of \<^verbatim>\<open>.each\<close> in \<open>getFunctionDoc\<close> on the variables \<^verbatim>\<open>signature\<close>,
  \<^verbatim>\<open>documentation\<close> and \<^verbatim>\<open>examples\<close>.
\<close>

definition scan_function ::
  "string \<Rightarrow> string \<times> string \<times> CodeExample list \<Rightarrow> function_element
     \<Rightarrow> string \<times> string \<times> CodeExample list" where
  "scan_function functionName acc el =
     (case acc of (sig, doc, exs) \<Rightarrow>
        if h4_id el = Some functionName
        then (trim (declaration_text el), trim (content_text el),
              foldl push_example exs (exampleDetails el))
        else (sig, doc, exs))"

definition getFunctionDoc_try ::
  "(exn + function_element list) \<Rightarrow> string \<Rightarrow> string \<Rightarrow> exn + FunctionDoc" where
  "getFunctionDoc_try matched pkg functionName =
     (case matched of
        Inl e \<Rightarrow> Inl e
      | Inr els \<Rightarrow>
          (case foldl (scan_function functionName) ([], [], []) els of
             (sig, doc, exs) \<Rightarrow>
               if sig = []
               then Inl (GoDocError ''NOT_FOUND''
                           (''Function '' @ functionName @ '' not found in '' @ pkg) None)
               else Inr \<lparr>fn_name = functionName, signature = sig, documentation = doc,
                          examples = (if exs \<noteq> [] then Some exs else None),
                          packagePath = pkg\<rparr>))"

definition GoDocFetcher_getFunctionDoc ::
  "(string \<Rightarrow> exn + function_element list) \<Rightarrow> (string \<Rightarrow> http_outcome)
     \<Rightarrow> string \<Rightarrow> string \<Rightarrow> string option \<Rightarrow> exn + FunctionDoc" where
  "GoDocFetcher_getFunctionDoc query_functions net pkg functionName ver =
     (case fetchHTML net (package_url pkg ver) of
        Inl e \<Rightarrow> Inl e
      | Inr html \<Rightarrow>
          (case getFunctionDoc_try (query_functions html) pkg functionName of
             Inr doc \<Rightarrow> Inr doc
           | Inl error \<Rightarrow>
               if code error = Some ''NOT_FOUND'' then Inl error
               else Inl (GoDocError ''PARSE_ERROR'' ''Failed to parse function documentation''
                           (Some error))))"

text \<open>
  For \<open>searchPackages\<close>: the elements a candidate selector matches, each with the
  \<^verbatim>\<open>href\<close> and text of its first link and the texts the callback reads.  The query is a
  parameter from the fetched HTML and the selector; it may throw.
\<close>

record result_element =
  a_href :: "string option"
  a_text :: string
  snippet_header_text :: string
  h2_text :: string
  snippet_synopsis_text :: string
  p_text :: string
  test_synopsis_text :: string

definition searchSelectors :: "string list" where
  \<open>searchSelectors = [''.SearchSnippet'', ''[data-test-id="snippet-title"]'', ''.SearchResult'', ''article'']\<close>

text \<open>\<^verbatim>\<open>href.replace(/^\//, '').split('@')[0]\<close> with \<^verbatim>\<open>href = link.attr('href') || ''\<close>.\<close>

definition el_path :: "result_element \<Rightarrow> string" where
  "el_path el =
     (let href = (case a_href el of Some h \<Rightarrow> h | None \<Rightarrow> []);
          stripped = (case href of c # r \<Rightarrow> if c = CHR ''/'' then r else href | [] \<Rightarrow> href)
      in case split_on CHR ''@'' stripped of p # _ \<Rightarrow> p | [] \<Rightarrow> [])"

definition el_name :: "result_element \<Rightarrow> string" where
  "el_name el =
     str_or (trim (a_text el))
       (str_or (trim (snippet_header_text el))
          (str_or (trim (h2_text el))
             (str_or (last (split_on CHR ''/'' (el_path el))) [])))"

definition el_synopsis :: "result_element \<Rightarrow> string" where
  "el_synopsis el =
     str_or (trim (snippet_synopsis_text el))
       (str_or (trim (p_text el))
          (str_or (trim (test_synopsis_text el)) ''No description available''))"

text \<open>
  The callback of \<^verbatim>\<open>.each\<close> in \<open>searchPackages\<close> on the variables \<^verbatim>\<open>results\<close> and
  \<^verbatim>\<open>found\<close>.
\<close>

definition push_result :: "SearchResult list \<times> bool \<Rightarrow> result_element \<Rightarrow> SearchResult list \<times> bool" where
  "push_result st el =
     (case st of (results, found) \<Rightarrow>
        if el_path el \<noteq> [] \<and> el_name el \<noteq> [] \<and> el_path el \<notin> sr_path ` set results
        then (results @ [\<lparr>sr_path = el_path el, sr_name = el_name el,
                            sr_synopsis = el_synopsis el, score = None\<rparr>], True)
        else (results, found))"

text \<open>
  The loop over the selectors, from the results so far; \<^verbatim>\<open>found\<close> is false whenever an
  iteration starts.  Besides the results it returns the selectors it queried.
\<close>

fun search_loop ::
  "(string \<Rightarrow> exn + result_element list) \<Rightarrow> string list \<Rightarrow> SearchResult list
     \<Rightarrow> exn + SearchResult list \<times> string list" where
  "search_loop select [] results = Inr (results, [])"
| "search_loop select (selector # rest) results =
     (case select selector of
        Inl e \<Rightarrow> Inl e
      | Inr els \<Rightarrow>
          (case foldl push_result (results, False) els of
             (results', found) \<Rightarrow>
               if found then Inr (results', [selector])
               else (case search_loop select rest results' of
                       Inl e \<Rightarrow> Inl e
                     | Inr (rs, tried) \<Rightarrow> Inr (rs, selector # tried))))"

definition GoDocFetcher_searchPackages ::
  "(string \<Rightarrow> string \<Rightarrow> exn + result_element list) \<Rightarrow> (string \<Rightarrow> string)
     \<Rightarrow> (string \<Rightarrow> http_outcome) \<Rightarrow> string \<Rightarrow> int \<Rightarrow> exn + SearchResult list" where
  "GoDocFetcher_searchPackages query_select encodeURIComponent net q limit =
     (case fetchHTML net (baseUrl @ ''/search?q='' @ encodeURIComponent q @ ''&limit='' @ show_int limit) of
        Inl e \<Rightarrow> Inl e
      | Inr html \<Rightarrow>
          (case search_loop (query_select html) searchSelectors [] of
             Inr (results, tried) \<Rightarrow> Inr results
           | Inl error \<Rightarrow>
               Inl (GoDocError ''PARSE_ERROR'' ''Failed to search packages'' (Some error))))"

text \<open>
  A page of the package \<open>fmt\<close> as the tests describe it: one function element, \<open>Printf\<close>.
  \<open>broken_functions\<close> is a DOM query that throws.
\<close>

definition printf_element :: function_element where
  "printf_element =
     \<lparr>h4_id = Some ''Printf'',
      declaration_text = ''  func Printf(format string, a ...any) (n int, err error) '',
      content_text = '' Printf formats according to a format specifier and writes to standard output. '',
      exampleDetails = []\<rparr>"

definition fmt_functions :: "string \<Rightarrow> exn + function_element list" where
  "fmt_functions html = Inr [printf_element]"

definition broken_functions :: "string \<Rightarrow> exn + function_element list" where
  "broken_functions html = Inl (TypeError ''Cannot read properties of undefined'')"

text \<open>
  Vocabulary of the statements about search: a matched element is \<open>usable\<close> when the
  callback finds a non-empty path and a non-empty name in it; \<open>entry\<close> is the result
  pushed for it.
\<close>

definition usable :: "result_element \<Rightarrow> bool" where
  "usable el = (el_path el \<noteq> [] \<and> el_name el \<noteq> [])"

definition entry :: "result_element \<Rightarrow> SearchResult" where
  "entry el = \<lparr>sr_path = el_path el, sr_name = el_name el, sr_synopsis = el_synopsis el, score = None\<rparr>"

text \<open>
  A search page on which the first selector matches an element without a link and the
  second selector matches a package.
\<close>

definition bare_snippet :: result_element where
  "bare_snippet =
     \<lparr>a_href = None, a_text = [], snippet_header_text = ''Results'', h2_text = [],
      snippet_synopsis_text = [], p_text = [], test_synopsis_text = []\<rparr>"

definition gin_snippet :: result_element where
  "gin_snippet =
     \<lparr>a_href = Some ''/github.com/gin-gonic/gin@v1.9.1'', a_text = '' gin '',
      snippet_header_text = [], h2_text = [],
      snippet_synopsis_text = [], p_text = ''Gin is a web framework'', test_synopsis_text = []\<rparr>"

definition sample_select :: "string \<Rightarrow> exn + result_element list" where
  \<open>sample_select selector =
     (if selector = ''.SearchSnippet'' then Inr [bare_snippet]
      else if selector = ''[data-test-id="snippet-title"]'' then Inr [gin_snippet]
      else Inr [])\<close>

section \<open>Query Orchestrator (index.ts)\<close>

text \<open>
  What the cache holds and a tool call returns: one of the documents, a list of search
  results or examples, or the version record, which \<open>getPackageVersions\<close> may return as
  \<^verbatim>\<open>null\<close>.  Every such value is truthy except \<^verbatim>\<open>null\<close>; \<open>falsy\<close> is the test \<^verbatim>\<open>!doc\<close> on
  what \<^verbatim>\<open>cache.get\<close> returned.
\<close>

datatype payload =
    PackageDocP PackageDoc
  | FunctionDocP FunctionDoc
  | TypeDocP TypeDoc
  | SearchResultsP "SearchResult list"
  | ExamplesP "CodeExample list"
  | VersionsP "PackageVersions option"

definition falsy :: "payload option \<Rightarrow> bool" where
  "falsy v = (v = None \<or> v = Some (VersionsP None))"

text \<open>
  The calls the handler makes on its collaborators.  The Document Extractor is a
  parameter that answers the first five; the last two go to the Version Index Client.
\<close>

datatype call =
    GetPackageDoc string "string option"
  | GetFunctionDoc string string "string option"
  | GetTypeDoc string string "string option"
  | SearchPackages string int
  | GetPackageExamples string "string option"
  | GetLatestVersion string
  | GetPackageVersions string

text \<open>The tool calls, with the arguments the handler reads.\<close>

datatype request =
    get_package_doc string "string option"
  | get_function_doc string string "string option"
  | get_type_doc string string "string option"
  | search_packages string "int option"
  | get_package_examples string "string option"
  | get_package_versions string

text \<open>
  The collaborators and the clock of one tool call: \<^verbatim>\<open>Date\<close>, \<^verbatim>\<open>JSON.parse\<close> and the
  network for the Version Index Client, the Document Extractor, the underlying store of
  the cache, and the clock readings when the index is consulted, when the cache is read
  and when it is written.
\<close>

record 's Env =
  env_Date :: "string \<Rightarrow> int option"
  env_JSON_parse :: "string \<Rightarrow> parsed option"
  env_net :: "string \<Rightarrow> http_outcome"
  env_fetcher :: "call \<Rightarrow> exn + payload"
  env_store :: "('s, payload CacheEntry) NodeCache"
  t_index :: int
  t_get :: int
  t_set :: int

record 's Server =
  moduleIndex :: ModuleIndexFetcher
  docCache :: "'s DocumentationCache"

text \<open>The cache key of each case of the handler, from the version after resolution.\<close>

fun cacheKey :: "request \<Rightarrow> string option \<Rightarrow> string" where
  "cacheKey (get_package_doc pkg _) ver =
     (if truthy ver then ''package:'' @ pkg @ ''@'' @ the ver
      else ''package:'' @ pkg)"
| "cacheKey (get_function_doc pkg functionName _) ver =
     (if truthy ver then ''function:'' @ pkg @ ''@'' @ the ver @ '':'' @ functionName
      else ''function:'' @ pkg @ '':'' @ functionName)"
| "cacheKey (get_type_doc pkg typeName _) ver =
     (if truthy ver then ''type:'' @ pkg @ ''@'' @ the ver @ '':'' @ typeName
      else ''type:'' @ pkg @ '':'' @ typeName)"
| "cacheKey (search_packages q limit) ver =
     ''search:'' @ q @ '':'' @ show_int (num_or limit 10)"
| "cacheKey (get_package_examples pkg _) ver =
     (if truthy ver then ''examples:'' @ pkg @ ''@'' @ the ver
      else ''examples:'' @ pkg)"
| "cacheKey (get_package_versions pkg) ver = ''versions:'' @ pkg"

text \<open>The version argument of a request, and the package it names.\<close>

fun version_arg :: "request \<Rightarrow> string option" where
  "version_arg (get_package_doc _ v) = v"
| "version_arg (get_function_doc _ _ v) = v"
| "version_arg (get_type_doc _ _ v) = v"
| "version_arg (get_package_examples _ v) = v"
| "version_arg _ = None"

fun package_arg :: "request \<Rightarrow> string" where
  "package_arg (get_package_doc p _) = p"
| "package_arg (get_function_doc p _ _) = p"
| "package_arg (get_type_doc p _ _) = p"
| "package_arg (get_package_examples p _) = p"
| "package_arg (get_package_versions p) = p"
| "package_arg (search_packages q _) = q"

text \<open>The call made on a cache miss, and the TTL argument of the \<^verbatim>\<open>cache.set\<close> after it.\<close>

fun miss_call :: "request \<Rightarrow> string option \<Rightarrow> call" where
  "miss_call (get_package_doc p _) ver = GetPackageDoc p ver"
| "miss_call (get_function_doc p f _) ver = GetFunctionDoc p f ver"
| "miss_call (get_type_doc p t _) ver = GetTypeDoc p t ver"
| "miss_call (search_packages q limit) ver = SearchPackages q (num_or limit 10)"
| "miss_call (get_package_examples p _) ver = GetPackageExamples p ver"
| "miss_call (get_package_versions p) ver = GetPackageVersions p"

fun ttl_arg_of :: "request \<Rightarrow> int option" where
  "ttl_arg_of (search_packages _ _) = Some 300"
| "ttl_arg_of (get_package_versions _) = Some 300"
| "ttl_arg_of _ = None"

text \<open>
  \<^verbatim>\<open>if (version === 'latest') version = (await moduleIndex.getLatestVersion(p)) || undefined\<close>:
  the version afterwards, the Version Index Client afterwards and the calls made.
\<close>

definition resolve_version ::
  "'s Env \<Rightarrow> ModuleIndexFetcher \<Rightarrow> string \<Rightarrow> string option
     \<Rightarrow> (exn + string option) \<times> ModuleIndexFetcher \<times> call list" where
  "resolve_version env mi pkg ver =
     (if ver = Some ''latest''
      then (case getLatestVersion (env_Date env) (env_JSON_parse env) (env_net env) (t_index env)
                   mi pkg of
              (Inl e, mi', reqs) \<Rightarrow> (Inl e, mi', [GetLatestVersion pkg])
            | (Inr r, mi', reqs) \<Rightarrow> (Inr (js_or r None), mi', [GetLatestVersion pkg]))
      else (Inr ver, mi, []))"

text \<open>
  The miss path: the extractor for the five document operations, the Version Index
  Client for the version list.
\<close>

definition perform ::
  "'s Env \<Rightarrow> ModuleIndexFetcher \<Rightarrow> call \<Rightarrow> (exn + payload) \<times> ModuleIndexFetcher" where
  "perform env mi c =
     (case c of
        GetPackageVersions p \<Rightarrow>
          (case getPackageVersions (env_Date env) (env_JSON_parse env) (env_net env) (t_index env) mi p of
             (Inl e, mi', reqs) \<Rightarrow> (Inl e, mi')
           | (Inr pv, mi', reqs) \<Rightarrow> (Inr (VersionsP pv), mi'))
      | _ \<Rightarrow> (env_fetcher env c, mi))"

text \<open>
  The end of a case of the handler: the version list is tested for \<^verbatim>\<open>null\<close>, the other
  results are returned as they are.  The \<^verbatim>\<open>McpError\<close> thrown for \<^verbatim>\<open>null\<close> has the code
  \<^verbatim>\<open>InvalidRequest\<close>, the number \<open>-32600\<close>, which its message carries; a numeric code is
  none of the string tags, so the \<open>code\<close> of the model is \<open>None\<close>.
\<close>

fun finish :: "request \<Rightarrow> payload \<Rightarrow> exn + payload" where
  "finish (get_package_versions pkg) doc =
     (if doc = VersionsP None
      then Inl (Exn ''McpError'' (''MCP error -32600: No versions found for package: '' @ pkg)
                  None None)
      else Inr doc)"
| "finish _ doc = Inr doc"

text \<open>
  \<^verbatim>\<open>let doc = cache.get(key); if (!doc) { doc = await ...; cache.set(key, doc, ttl) }\<close>
  and the return.
\<close>

definition get_or_fetch ::
  "'s Env \<Rightarrow> request \<Rightarrow> string option \<Rightarrow> 's Server \<Rightarrow> (exn + payload) \<times> 's Server \<times> call list" where
  "get_or_fetch env req ver srv =
     (case DocumentationCache_get (env_store env) (cacheKey req ver) (t_get env) (docCache srv) of
        (Inl e, c1) \<Rightarrow> (Inl e, srv\<lparr>docCache := c1\<rparr>, [])
      | (Inr cached, c1) \<Rightarrow>
          if \<not> falsy cached then (finish req (the cached), srv\<lparr>docCache := c1\<rparr>, [])
          else (case perform env (moduleIndex srv) (miss_call req ver) of
                  (Inl e, mi') \<Rightarrow>
                    (Inl e, srv\<lparr>moduleIndex := mi', docCache := c1\<rparr>, [miss_call req ver])
                | (Inr doc, mi') \<Rightarrow>
                    (case DocumentationCache_set (env_store env) (cacheKey req ver) doc
                            (ttl_arg_of req) (t_set env) c1 of
                       (Inl e, c2) \<Rightarrow>
                         (Inl e, srv\<lparr>moduleIndex := mi', docCache := c2\<rparr>, [miss_call req ver])
                     | (Inr b, c2) \<Rightarrow>
                         (finish req doc, srv\<lparr>moduleIndex := mi', docCache := c2\<rparr>,
                          [miss_call req ver]))))"

text \<open>
  The body of the \<^verbatim>\<open>try\<close> of the tool handler: the result before serialisation, the
  server afterwards and the calls made on the collaborators, in order.
\<close>

definition callTool :: "'s Env \<Rightarrow> request \<Rightarrow> 's Server \<Rightarrow> (exn + payload) \<times> 's Server \<times> call list" where
  "callTool env req srv =
     (case resolve_version env (moduleIndex srv) (package_arg req) (version_arg req) of
        (Inl e, mi', calls) \<Rightarrow> (Inl e, srv\<lparr>moduleIndex := mi'\<rparr>, calls)
      | (Inr ver, mi', calls) \<Rightarrow>
          (case get_or_fetch env req ver (srv\<lparr>moduleIndex := mi'\<rparr>) of
             (r, srv', calls') \<Rightarrow> (r, srv', calls @ calls')))"

text \<open>
  The key scheme in the words of the design: the kind, a colon and the path, then \<open>@\<close>
  and the version when there is one, then a colon and the symbol when there is one.
\<close>

definition key_kinds :: "string list" where
  "key_kinds = [''package'', ''function'', ''type'', ''search'', ''examples'', ''versions'']"

definition key_scheme :: "string \<Rightarrow> string \<Rightarrow> string option \<Rightarrow> string option \<Rightarrow> string" where
  "key_scheme kind p ver symbol =
     kind @ '':'' @ p
       @ (case ver of None \<Rightarrow> [] | Some v \<Rightarrow> ''@'' @ v)
       @ (case symbol of None \<Rightarrow> [] | Some s \<Rightarrow> '':'' @ s)"

text \<open>The version that qualifies a key: a non-empty string, if any.\<close>

definition qualifier :: "string option \<Rightarrow> string option" where
  "qualifier ver = (if truthy ver then ver else None)"

text \<open>
  A server at start-up with the store of the package, and collaborators that serve the
  feed with the pre-release and one package document.
\<close>

definition sample_doc :: PackageDoc where
  "sample_doc =
     \<lparr>pd_name = ''pkg'', importPath = ''test/pkg'', pd_version = Some ''v1.9.0'',
      pd_synopsis = ''No description available'', overview = None, readme = None,
      subdirectories = None, pd_imports = None\<rparr>"

definition sample_env :: "payload CacheEntry Store Env" where
  "sample_env =
     \<lparr>env_Date = sample_Date, env_JSON_parse = sample_JSON_parse,
      env_net = serve indexWithPrerelease,
      env_fetcher = (\<lambda>c. Inr (PackageDocP sample_doc)),
      env_store = node_cache rejecting,
      t_index = 0, t_get = 1, t_set = 2\<rparr>"

definition sample_server :: "payload CacheEntry Store Server" where
  "sample_server =
     \<lparr>moduleIndex = new_ModuleIndexFetcher,
      docCache = new_DocumentationCache (node_cache rejecting) None\<rparr>"


section \<open>Properties of the Version Index Client\<close>

subsection \<open>Strings and lines\<close>

lemma split_on_not_Nil: "split_on c s \<noteq> []"
  by (induction s) (auto split: list.splits)

lemma split_on_no_sep: "c \<notin> set a \<Longrightarrow> split_on c a = [a]"
  by (induction a) auto

lemma split_on_append: "c \<notin> set a \<Longrightarrow> split_on c (a @ c # r) = a # split_on c r"
  by (induction a) auto

lemma dropWhile_hd: "xs \<noteq> [] \<Longrightarrow> \<not> P (hd xs) \<Longrightarrow> dropWhile P xs = xs"
  by (cases xs) auto

lemma trim_id:
  assumes "s \<noteq> []" and "\<not> is_space (hd s)" and "\<not> is_space (last s)"
  shows "trim s = s"
proof -
  have "dropWhile is_space s = s"
    using assms by (simp add: dropWhile_hd)
  moreover have "dropWhile is_space (rev s) = rev s"
    using assms by (simp add: dropWhile_hd hd_rev)
  ultimately show ?thesis by (simp add: trim_def)
qed

lemma parse_lines_append: "parse_lines P (xs @ ys) = parse_lines P xs @ parse_lines P ys"
  by (induction xs) (auto split: option.splits)

lemma parse_lines_length:
  "length (parse_lines P ls) = length (filter (\<lambda>l. \<exists>p. P l = Some (JRecord p)) ls)"
  by (induction ls) (auto simp: parse_line_def split: option.splits parsed.splits)

lemma fetchIndex_ok:
  "net indexUrl = Response st stText (Inr tx) \<Longrightarrow> ok st \<Longrightarrow>
   fetchIndex P net = Inr (parse_lines P (split_on CHR 0x0A (trim tx)))"
  by (simp add: fetchIndex_def fetchIndex_try_def)

lemma fetchIndex_transport:
  "(\<exists>e. net indexUrl = Rejected e)
     \<or> (\<exists>st t b. net indexUrl = Response st t b \<and> (\<not> ok st \<or> isl b))
   \<Longrightarrow> isl (fetchIndex P net)"
  by (auto simp: fetchIndex_def fetchIndex_try_def split: sum.splits if_splits)

lemma three_lines:
  assumes "CHR 0x0A \<notin> set l1" "CHR 0x0A \<notin> set l2" "CHR 0x0A \<notin> set l3"
    and "l1 \<noteq> []" "\<not> is_space (hd l1)" "l3 \<noteq> []" "\<not> is_space (last l3)"
  shows "split_on CHR 0x0A (trim (l1 @ [CHR 0x0A] @ l2 @ [CHR 0x0A] @ l3)) = [l1, l2, l3]"
proof -
  let ?t = "l1 @ [CHR 0x0A] @ l2 @ [CHR 0x0A] @ l3"
  have "hd ?t = hd l1" "last ?t = last l3" "?t \<noteq> []"
    using assms by simp_all
  then have "trim ?t = ?t"
    using assms trim_id [of ?t] by simp
  moreover have "split_on CHR 0x0A ?t = [l1, l2, l3]"
    using assms by (simp add: split_on_append split_on_no_sep)
  ultimately show ?thesis by simp
qed

text \<open>
  C3.  A line on which \<^verbatim>\<open>JSON.parse\<close> throws contributes no row: dropping it from the
  feed changes nothing.  A response that arrives with a success status never fails the
  call, whatever its lines: the rows are those of the lines that parse, as many as there
  are such lines.  A rejected fetch (a timeout included), an error status and a body that
  cannot be read fail the whole call.  A well-formed line, a malformed line and another
  well-formed line give exactly two rows.
\<close>

theorem fetchIndex_skips_unparsable_lines:
  "(\<forall>xs l ys. JSON_parse l = None \<longrightarrow>
       parse_lines JSON_parse (xs @ l # ys) = parse_lines JSON_parse (xs @ ys))
   \<and> (\<forall>st stText tx. net indexUrl = Response st stText (Inr tx) \<and> ok st \<longrightarrow>
         (\<exists>rows. fetchIndex JSON_parse net = Inr rows
            \<and> rows = parse_lines JSON_parse (split_on CHR 0x0A (trim tx))
            \<and> length rows =
                length (filter (\<lambda>l. \<exists>p. JSON_parse l = Some (JRecord p))
                          (split_on CHR 0x0A (trim tx)))))
   \<and> ((\<exists>e. net indexUrl = Rejected e)
        \<or> (\<exists>st stText b. net indexUrl = Response st stText b \<and> (\<not> ok st \<or> isl b))
       \<longrightarrow> (\<exists>e. fetchIndex JSON_parse net = Inl e))
   \<and> (\<forall>st stText l1 l2 l3 p1 p3.
         net indexUrl = Response st stText (Inr (l1 @ [CHR 0x0A] @ l2 @ [CHR 0x0A] @ l3))
         \<and> ok st
         \<and> CHR 0x0A \<notin> set l1 \<and> CHR 0x0A \<notin> set l2 \<and> CHR 0x0A \<notin> set l3
         \<and> l1 \<noteq> [] \<and> \<not> is_space (hd l1) \<and> l3 \<noteq> [] \<and> \<not> is_space (last l3)
         \<and> JSON_parse l1 = Some (JRecord p1) \<and> JSON_parse l2 = None
         \<and> JSON_parse l3 = Some (JRecord p3)
         \<longrightarrow> (\<exists>r1 r3. fetchIndex JSON_parse net = Inr [r1, r3]))"
proof (intro conjI allI impI)
  fix xs l ys
  assume "JSON_parse l = None"
  then have "parse_line JSON_parse l = None"
    by (simp add: parse_line_def)
  then show "parse_lines JSON_parse (xs @ l # ys) = parse_lines JSON_parse (xs @ ys)"
    by (simp add: parse_lines_append)
next
  fix st stText tx
  assume "net indexUrl = Response st stText (Inr tx) \<and> ok st"
  then have "fetchIndex JSON_parse net = Inr (parse_lines JSON_parse (split_on CHR 0x0A (trim tx)))"
    by (simp add: fetchIndex_ok)
  then show "\<exists>rows. fetchIndex JSON_parse net = Inr rows
            \<and> rows = parse_lines JSON_parse (split_on CHR 0x0A (trim tx))
            \<and> length rows =
                length (filter (\<lambda>l. \<exists>p. JSON_parse l = Some (JRecord p))
                          (split_on CHR 0x0A (trim tx)))"
    by (simp add: parse_lines_length)
next
  assume "(\<exists>e. net indexUrl = Rejected e)
        \<or> (\<exists>st stText b. net indexUrl = Response st stText b \<and> (\<not> ok st \<or> isl b))"
  then have "isl (fetchIndex JSON_parse net)"
    by (rule fetchIndex_transport)
  then show "\<exists>e. fetchIndex JSON_parse net = Inl e"
    by (cases "fetchIndex JSON_parse net") auto
next
  fix st stText l1 l2 l3 p1 p3
  assume a: "net indexUrl = Response st stText (Inr (l1 @ [CHR 0x0A] @ l2 @ [CHR 0x0A] @ l3))
         \<and> ok st
         \<and> CHR 0x0A \<notin> set l1 \<and> CHR 0x0A \<notin> set l2 \<and> CHR 0x0A \<notin> set l3
         \<and> l1 \<noteq> [] \<and> \<not> is_space (hd l1) \<and> l3 \<noteq> [] \<and> \<not> is_space (last l3)
         \<and> JSON_parse l1 = Some (JRecord p1) \<and> JSON_parse l2 = None
         \<and> JSON_parse l3 = Some (JRecord p3)"
  then have lines: "split_on CHR 0x0A (trim (l1 @ [CHR 0x0A] @ l2 @ [CHR 0x0A] @ l3)) = [l1, l2, l3]"
    by (intro three_lines) simp_all
  have "fetchIndex JSON_parse net = Inr (parse_lines JSON_parse [l1, l2, l3])"
    using a fetchIndex_ok [of net st stText _ JSON_parse] lines by simp
  then show "\<exists>r1 r3. fetchIndex JSON_parse net = Inr [r1, r3]"
    using a by (simp add: parse_line_def)
qed

lemma newline_free_fixtures:
  "CHR 0x0A \<notin> set good1" "CHR 0x0A \<notin> set good2" "CHR 0x0A \<notin> set ''this is not json''"
  "CHR 0x0A \<notin> set pre1" "CHR 0x0A \<notin> set pre2" "CHR 0x0A \<notin> set pre3"
  by (simp_all add: good1_def good2_def pre1_def pre2_def pre3_def)

theorem fetchIndex_skips_unparsable_lines_witness:
  "serve malformedIndex indexUrl
     = Response 200 ''OK'' (Inr (good1 @ [CHR 0x0A] @ ''this is not json'' @ [CHR 0x0A] @ good2))
   \<and> ok 200
   \<and> sample_JSON_parse ''this is not json'' = None
   \<and> (\<exists>r1 r3. fetchIndex sample_JSON_parse (serve malformedIndex) = Inr [r1, r3])"
proof -
  have h: "serve malformedIndex indexUrl
      = Response 200 ''OK'' (Inr (good1 @ [CHR 0x0A] @ ''this is not json'' @ [CHR 0x0A] @ good2))"
    by (simp add: serve_def malformedIndex_def)
  have k: "ok 200" by (simp add: ok_def)
  have sp: "good1 \<noteq> []" "\<not> is_space (hd good1)" "good2 \<noteq> []" "\<not> is_space (last good2)"
    by (simp_all add: good1_def good2_def is_space_def)
  have p1: "sample_JSON_parse good1
      = Some (JRecord [(''Path'', ''good/package''), (''Version'', ''v1.0.0''), (''Timestamp'', ''2023-01-01T00:00:00Z'')])"
    by (simp add: sample_JSON_parse_def sample_record_def good1_def pre1_def pre2_def pre3_def)
  have p2: "sample_JSON_parse ''this is not json'' = None"
    by (simp add: sample_JSON_parse_def good1_def good2_def pre1_def pre2_def pre3_def)
  have p3: "sample_JSON_parse good2
      = Some (JRecord [(''Path'', ''another/package''), (''Version'', ''v1.0.0''), (''Timestamp'', ''2023-01-01T00:00:00Z'')])"
    by (simp add: sample_JSON_parse_def sample_record_def good1_def good2_def pre1_def pre2_def pre3_def)
  from fetchIndex_skips_unparsable_lines [of sample_JSON_parse "serve malformedIndex"]
  have "\<forall>st stText l1 l2 l3 p1 p3.
         serve malformedIndex indexUrl = Response st stText (Inr (l1 @ [CHR 0x0A] @ l2 @ [CHR 0x0A] @ l3))
         \<and> ok st
         \<and> CHR 0x0A \<notin> set l1 \<and> CHR 0x0A \<notin> set l2 \<and> CHR 0x0A \<notin> set l3
         \<and> l1 \<noteq> [] \<and> \<not> is_space (hd l1) \<and> l3 \<noteq> [] \<and> \<not> is_space (last l3)
         \<and> sample_JSON_parse l1 = Some (JRecord p1) \<and> sample_JSON_parse l2 = None
         \<and> sample_JSON_parse l3 = Some (JRecord p3)
         \<longrightarrow> (\<exists>r1 r3. fetchIndex sample_JSON_parse (serve malformedIndex) = Inr [r1, r3])"
    by blast
  then have "\<exists>r1 r3. fetchIndex sample_JSON_parse (serve malformedIndex) = Inr [r1, r3]"
    using h k sp p1 p2 p3 newline_free_fixtures(1,2,3) by blast
  with h k p2 show ?thesis by blast
qed

text \<open>
  C4.  Both \<^verbatim>\<open>throw\<close> statements of the \<^verbatim>\<open>catch\<close> block of \<open>fetchIndex\<close> build a plain
  \<^verbatim>\<open>Error\<close>: whatever failure leaves the Version Index Client through \<open>fetchIndex\<close>
  carries no \<open>code\<close>, hence none of the four kinds.
\<close>

theorem fetchIndex_failure_carries_no_kind:
  "fetchIndex JSON_parse net = Inl e \<Longrightarrow> code e = None \<and> code e \<notin> Some ` set error_kinds"
  by (auto simp: fetchIndex_def Error_def split: sum.splits if_splits)

theorem fetchIndex_failure_carries_no_kind_witness:
  "fetchIndex sample_JSON_parse timed_out = Inl (Exn ''Error'' ''Module index fetch timeout'' None None)
   \<and> code (Exn ''Error'' ''Module index fetch timeout'' None None) = None
   \<and> code (Exn ''Error'' ''Module index fetch timeout'' None None) \<notin> Some ` set error_kinds"
proof -
  have h: "fetchIndex sample_JSON_parse timed_out = Inl (Exn ''Error'' ''Module index fetch timeout'' None None)"
    by (simp add: fetchIndex_def fetchIndex_try_def timed_out_def Error_def)
  from fetchIndex_failure_carries_no_kind [OF h] h show ?thesis by blast
qed

text \<open>
  C10.  When \<open>getIndex\<close> has to refresh (no snapshot, or a snapshot at least one hour old)
  and the fetch fails, the call ends in that error, the fetcher is unchanged and the
  index URL was requested; at any later clock reading the next call requests it again,
  whatever the network then answers.
\<close>

theorem getIndex_failed_refresh:
  assumes "cachedIndex s = None \<or> indexCacheTTL \<le> now - lastFetchTime s"
    and "fetchIndex JSON_parse net = Inl e"
  shows "getIndex JSON_parse net now s = (Inl e, s, [indexUrl])
     \<and> (\<forall>now' net'. now \<le> now' \<longrightarrow>
           snd (snd (getIndex JSON_parse net' now' (fst (snd (getIndex JSON_parse net now s)))))
             = [indexUrl])"
proof -
  have first: "getIndex JSON_parse net now s = (Inl e, s, [indexUrl])"
    using assms by (auto simp: getIndex_def split: option.splits)
  have "snd (snd (getIndex JSON_parse net' now' s)) = [indexUrl]" if "now \<le> now'" for now' net'
    using assms(1) that
    by (cases "fetchIndex JSON_parse net'") (auto simp: getIndex_def split: option.splits)
  with first show ?thesis by simp
qed

theorem getIndex_failed_refresh_witness:
  "(cachedIndex \<lparr>cachedIndex = Some [], lastFetchTime = 1000\<rparr> = None
      \<or> indexCacheTTL \<le> 3601000 - lastFetchTime \<lparr>cachedIndex = Some [], lastFetchTime = 1000\<rparr>)
   \<and> fetchIndex sample_JSON_parse timed_out = Inl (Error ''Module index fetch timeout'')
   \<and> getIndex sample_JSON_parse timed_out 3601000 \<lparr>cachedIndex = Some [], lastFetchTime = 1000\<rparr>
       = (Inl (Error ''Module index fetch timeout''), \<lparr>cachedIndex = Some [], lastFetchTime = 1000\<rparr>, [indexUrl])
   \<and> snd (snd (getIndex sample_JSON_parse (serve malformedIndex) 3601001
         (fst (snd (getIndex sample_JSON_parse timed_out 3601000
                      \<lparr>cachedIndex = Some [], lastFetchTime = 1000\<rparr>)))))
       = [indexUrl]"
proof -
  let ?s = "\<lparr>cachedIndex = Some [], lastFetchTime = 1000\<rparr>"
  have h1: "cachedIndex ?s = None \<or> indexCacheTTL \<le> 3601000 - lastFetchTime ?s"
    by (simp add: indexCacheTTL_def)
  have h2: "fetchIndex sample_JSON_parse timed_out = Inl (Error ''Module index fetch timeout'')"
    by (simp add: fetchIndex_def fetchIndex_try_def timed_out_def)
  have le: "(3601000::int) \<le> 3601001" by simp
  from getIndex_failed_refresh [OF h1 h2] le h1 h2 show ?thesis by blast
qed

subsection \<open>The sort and the choice of the latest version\<close>

lemma set_insert_sorted: "set (insert_sorted cmp x ys) = insert x (set ys)"
  by (induction ys) auto

lemma mset_insert_sorted: "mset (insert_sorted cmp x ys) = add_mset x (mset ys)"
  by (induction ys) auto

lemma mset_array_sort: "mset (array_sort cmp xs) = mset xs"
  by (induction xs) (auto simp: array_sort_def mset_insert_sorted)

lemma set_array_sort: "set (array_sort cmp xs) = set xs"
  using mset_array_sort [of cmp xs] by (metis set_mset_mset)

lemma not_older_trans: "not_older D a b \<Longrightarrow> not_older D b c \<Longrightarrow> not_older D a c"
  by (auto simp: not_older_def split: option.splits)

lemma newest_first_le: "dated D x \<Longrightarrow> dated D y \<Longrightarrow> (newest_first D x y \<le> 0) = not_older D x y"
  by (auto simp: newest_first_def not_older_def dated_def split: option.splits)

lemma not_older_total: "dated D x \<Longrightarrow> dated D y \<Longrightarrow> \<not> not_older D x y \<Longrightarrow> not_older D y x"
  by (auto simp: not_older_def dated_def split: option.splits)

lemma sorted_insert_sorted:
  "dated D x \<Longrightarrow> \<forall>y \<in> set ys. dated D y \<Longrightarrow> sorted_wrt (not_older D) ys
   \<Longrightarrow> sorted_wrt (not_older D) (insert_sorted (newest_first D) x ys)"
proof (induction ys)
  case Nil
  then show ?case by simp
next
  case (Cons y ys)
  show ?case
  proof (cases "not_older D x y")
    case True
    then have "\<forall>z \<in> set ys. not_older D x z"
      using Cons.prems(3) not_older_trans by auto
    with True Cons.prems show ?thesis
      by (simp add: newest_first_le)
  next
    case False
    then have "not_older D y x"
      using Cons.prems not_older_total by simp
    with False Cons show ?thesis
      by (auto simp: newest_first_le set_insert_sorted)
  qed
qed

lemma sorted_array_sort:
  "\<forall>y \<in> set xs. dated D y \<Longrightarrow> sorted_wrt (not_older D) (array_sort (newest_first D) xs)"
proof (induction xs)
  case Nil
  then show ?case by (simp add: array_sort_def)
next
  case (Cons x xs)
  have "array_sort (newest_first D) (x # xs)
      = insert_sorted (newest_first D) x (array_sort (newest_first D) xs)"
    by (simp add: array_sort_def)
  then show ?case using Cons by (simp add: sorted_insert_sorted set_array_sort)
qed

lemma stable_filter_eq:
  "\<forall>v \<in> set vs. version v \<noteq> None \<Longrightarrow> stable_filter vs = Inr (filter hyphen_free vs)"
  by (induction vs) (auto simp: includes_hyphen_def hyphen_free_def)

lemma sorted_hd_newest:
  "sorted_wrt (not_older D) (v # vs) \<Longrightarrow> dated D v \<Longrightarrow> w \<in> set (v # vs) \<Longrightarrow> not_older D v w"
  by (auto simp: not_older_def dated_def split: option.splits)

lemma versions_of_set:
  "set (versions_of D index P) =
     (\<lambda>m. \<lparr>version = version m, timestamp = timestamp m\<rparr>) ` {m \<in> set index. path m = Some P}"
  by (auto simp: versions_of_def set_array_sort)

lemma packageVersions_latest:
  assumes row: "\<exists>m \<in> set index. path m = Some P"
    and wf: "\<forall>m \<in> set index. path m = Some P \<longrightarrow>
               version m \<noteq> None \<and> getTime D (timestamp m) \<noteq> None"
  shows "\<exists>pv. packageVersions D index P = Inr (Some pv)
      \<and> pv_path pv = P
      \<and> versions pv = versions_of D index P
      \<and> sorted_wrt (not_older D) (versions pv)
      \<and> (\<exists>v \<in> set (versions pv). latest pv = version v
            \<and> (if \<exists>u \<in> set (versions pv). hyphen_free u
                then hyphen_free v
                  \<and> (\<forall>w \<in> set (versions pv). hyphen_free w \<longrightarrow> not_older D v w)
                else (\<forall>w \<in> set (versions pv). not_older D v w)))"
proof -
  let ?vs = "versions_of D index P"
  have dated: "\<forall>v \<in> set ?vs. dated D v" and vers: "\<forall>v \<in> set ?vs. version v \<noteq> None"
    using wf by (auto simp: versions_of_set dated_def)
  have ne: "?vs \<noteq> []"
    using row versions_of_set [of D index P] by (metis (mono_tags, lifting) empty_iff empty_set image_eqI mem_Collect_eq)
  have srt: "sorted_wrt (not_older D) ?vs"
    unfolding versions_of_def
    by (rule sorted_array_sort) (use wf in \<open>auto simp: dated_def\<close>)
  have sf: "stable_filter ?vs = Inr (filter hyphen_free ?vs)"
    using vers by (rule stable_filter_eq)
  obtain v0 rest where v0: "?vs = v0 # rest" using ne by (cases ?vs) auto
  let ?l = "case filter hyphen_free ?vs of s0 # _ \<Rightarrow> version s0 | [] \<Rightarrow> version v0"
  let ?pv = "\<lparr>pv_path = P, versions = ?vs, latest = ?l\<rparr>"
  have res: "packageVersions D index P = Inr (Some ?pv)"
    using v0 sf by (simp add: packageVersions_def Let_def)
  have pick: "\<exists>v \<in> set ?vs. ?l = version v
            \<and> (if \<exists>u \<in> set ?vs. hyphen_free u
                then hyphen_free v \<and> (\<forall>w \<in> set ?vs. hyphen_free w \<longrightarrow> not_older D v w)
                else (\<forall>w \<in> set ?vs. not_older D v w))"
  proof (cases "filter hyphen_free ?vs")
    case Nil
    then have none: "\<not> (\<exists>u \<in> set ?vs. hyphen_free u)"
      by (simp add: filter_empty_conv)
    have "\<forall>w \<in> set ?vs. not_older D v0 w"
      using srt dated v0 sorted_hd_newest [of D v0 rest] by (metis list.set_intros(1))
    with Nil none v0 show ?thesis
      by (intro bexI [of _ v0]) auto
  next
    case (Cons s0 ss)
    have "s0 \<in> set (filter hyphen_free ?vs)" using Cons by simp
    then have s0: "s0 \<in> set ?vs" "hyphen_free s0" by auto
    have "sorted_wrt (not_older D) (s0 # ss)"
      using srt sorted_wrt_filter [of "not_older D" ?vs hyphen_free] Cons by simp
    moreover have "dated D s0" using s0 dated by blast
    ultimately have "\<forall>w \<in> set (s0 # ss). not_older D s0 w"
      using sorted_hd_newest [of D s0 ss] by blast
    moreover have "set (s0 # ss) = {w \<in> set ?vs. hyphen_free w}"
      using Cons [symmetric] by simp
    ultimately have "\<forall>w \<in> set ?vs. hyphen_free w \<longrightarrow> not_older D s0 w"
      by blast
    with s0 Cons show ?thesis
      by (intro bexI [of _ s0]) auto
  qed
  show ?thesis
    apply (intro exI [of _ ?pv] conjI)
        apply (rule res)
    unfolding PackageVersions.select_convs
       apply (rule refl)
      apply (rule refl)
     apply (rule srt)
    apply (rule pick)
    done
qed

text \<open>
  C1, as stated, fails on a feed whose only row of the path lacks the version: the row
  is in the fetched index, and \<open>getPackageVersions\<close> ends in the \<^verbatim>\<open>TypeError\<close> of
  reading \<^verbatim>\<open>includes\<close> of \<^verbatim>\<open>undefined\<close>.
\<close>

theorem getPackageVersions_versionless_row:
  "fst (getIndex versionless_JSON_parse (serve versionless) 0 new_ModuleIndexFetcher)
     = Inr [\<lparr>version = None, timestamp = Some ''2023-01-01T00:00:00Z'', path = Some ''p''\<rparr>]
   \<and> fst (getPackageVersions sample_Date versionless_JSON_parse (serve versionless) 0
            new_ModuleIndexFetcher ''p'')
     = Inl (Exn ''TypeError''
              (''Cannot read properties of undefined (reading '' @ [CHR 0x27] @ ''includes''
                 @ [CHR 0x27] @ '')'') None None)"
proof -
  have nl: "CHR 0x0A \<notin> set versionless"
    and sp: "versionless \<noteq> []" "\<not> is_space (hd versionless)" "\<not> is_space (last versionless)"
    by (simp_all add: versionless_def is_space_def)
  have "trim versionless = versionless"
    using sp by (rule trim_id)
  then have lines: "split_on CHR 0x0A (trim versionless) = [versionless]"
    using nl by (simp add: split_on_no_sep)
  have "fetchIndex versionless_JSON_parse (serve versionless)
      = Inr (parse_lines versionless_JSON_parse [versionless])"
    using fetchIndex_ok [of "serve versionless" 200 "''OK''" versionless versionless_JSON_parse] lines
    by (simp add: serve_def ok_def)
  then have idx: "getIndex versionless_JSON_parse (serve versionless) 0 new_ModuleIndexFetcher
      = (Inr [\<lparr>version = None, timestamp = Some ''2023-01-01T00:00:00Z'', path = Some ''p''\<rparr>],
         \<lparr>cachedIndex = Some [\<lparr>version = None, timestamp = Some ''2023-01-01T00:00:00Z'',
                                  path = Some ''p''\<rparr>],
            lastFetchTime = 0\<rparr>,
         [indexUrl])"
    by (simp add: getIndex_def new_ModuleIndexFetcher_def parse_line_def versionless_JSON_parse_def
        get_prop_def js_or_def truthy_def)
  then show ?thesis
    by (simp add: getPackageVersions_def packageVersions_def versions_of_def array_sort_def
        includes_hyphen_def TypeError_def Let_def)
qed

text \<open>
  C1, amended.  Let the index obtained by \<open>getIndex\<close> hold at least one row of path \<open>P\<close>, every
  such row carrying a version string and a time stamp that is a date.  Then
  \<open>getPackageVersions\<close> returns a record for \<open>P\<close> whose versions are exactly the rows of
  \<open>P\<close>, newest first, and whose \<open>latest\<close> is the version of a newest hyphen-free entry
  when some entry is hyphen-free, and of a newest entry of all otherwise.
\<close>

theorem getPackageVersions_latest_stable:
  assumes "getIndex JSON_parse net now s = (Inr index, s', reqs)"
    and "\<exists>m \<in> set index. path m = Some P"
    and "\<forall>m \<in> set index. path m = Some P \<longrightarrow>
           version m \<noteq> None \<and> getTime Date_getTime (timestamp m) \<noteq> None"
  shows "\<exists>pv. getPackageVersions Date_getTime JSON_parse net now s P = (Inr (Some pv), s', reqs)
      \<and> pv_path pv = P
      \<and> mset (versions pv)
          = mset (map (\<lambda>m. \<lparr>version = version m, timestamp = timestamp m\<rparr>)
                   (filter (\<lambda>m. path m = Some P) index))
      \<and> sorted_wrt (not_older Date_getTime) (versions pv)
      \<and> (\<exists>v \<in> set (versions pv). latest pv = version v
            \<and> (if \<exists>u \<in> set (versions pv). hyphen_free u
                then hyphen_free v
                  \<and> (\<forall>w \<in> set (versions pv). hyphen_free w \<longrightarrow> not_older Date_getTime v w)
                else (\<forall>w \<in> set (versions pv). not_older Date_getTime v w)))"
proof -
  obtain pv where pv: "packageVersions Date_getTime index P = Inr (Some pv)"
      "pv_path pv = P" "versions pv = versions_of Date_getTime index P"
      "sorted_wrt (not_older Date_getTime) (versions pv)"
      "\<exists>v \<in> set (versions pv). latest pv = version v
            \<and> (if \<exists>u \<in> set (versions pv). hyphen_free u
                then hyphen_free v
                  \<and> (\<forall>w \<in> set (versions pv). hyphen_free w \<longrightarrow> not_older Date_getTime v w)
                else (\<forall>w \<in> set (versions pv). not_older Date_getTime v w))"
    using packageVersions_latest [OF assms(2,3)] by blast
  have call: "getPackageVersions Date_getTime JSON_parse net now s P = (Inr (Some pv), s', reqs)"
    using assms(1) pv(1) by (simp add: getPackageVersions_def)
  have ms: "mset (versions pv)
      = mset (map (\<lambda>m. \<lparr>version = version m, timestamp = timestamp m\<rparr>)
               (filter (\<lambda>m. path m = Some P) index))"
    unfolding pv(3) versions_of_def by (rule mset_array_sort)
  from call pv(2) ms pv(4) pv(5) show ?thesis by blast
qed

lemma prerelease_index:
  "getIndex sample_JSON_parse (serve indexWithPrerelease) 0 new_ModuleIndexFetcher
     = (Inr [\<lparr>version = Some ''v2.0.0-beta.1'', timestamp = Some ''2023-12-01T00:00:00Z'', path = Some ''test/pkg''\<rparr>,
             \<lparr>version = Some ''v1.9.0'', timestamp = Some ''2023-11-01T00:00:00Z'', path = Some ''test/pkg''\<rparr>,
             \<lparr>version = Some ''v2.0.0-alpha.1'', timestamp = Some ''2023-10-01T00:00:00Z'', path = Some ''test/pkg''\<rparr>],
        \<lparr>cachedIndex = Some
            [\<lparr>version = Some ''v2.0.0-beta.1'', timestamp = Some ''2023-12-01T00:00:00Z'', path = Some ''test/pkg''\<rparr>,
             \<lparr>version = Some ''v1.9.0'', timestamp = Some ''2023-11-01T00:00:00Z'', path = Some ''test/pkg''\<rparr>,
             \<lparr>version = Some ''v2.0.0-alpha.1'', timestamp = Some ''2023-10-01T00:00:00Z'', path = Some ''test/pkg''\<rparr>],
          lastFetchTime = 0\<rparr>,
        [indexUrl])"
proof -
  have sp: "pre1 \<noteq> []" "\<not> is_space (hd pre1)" "pre3 \<noteq> []" "\<not> is_space (last pre3)"
    by (simp_all add: pre1_def pre3_def is_space_def)
  have lines: "split_on CHR 0x0A (trim indexWithPrerelease) = [pre1, pre2, pre3]"
    unfolding indexWithPrerelease_def
    using newline_free_fixtures(4,5,6) sp by (rule three_lines)
  have p: "sample_JSON_parse pre1 = Some (sample_record ''test/pkg'' ''v2.0.0-beta.1'' ''2023-12-01T00:00:00Z'')"
    "sample_JSON_parse pre2 = Some (sample_record ''test/pkg'' ''v1.9.0'' ''2023-11-01T00:00:00Z'')"
    "sample_JSON_parse pre3 = Some (sample_record ''test/pkg'' ''v2.0.0-alpha.1'' ''2023-10-01T00:00:00Z'')"
    by (simp_all add: sample_JSON_parse_def pre1_def pre2_def pre3_def)
  have "fetchIndex sample_JSON_parse (serve indexWithPrerelease)
      = Inr (parse_lines sample_JSON_parse [pre1, pre2, pre3])"
    using fetchIndex_ok [of "serve indexWithPrerelease" 200 "''OK''" indexWithPrerelease sample_JSON_parse] lines
    by (simp add: serve_def ok_def)
  then show ?thesis
    by (simp add: getIndex_def new_ModuleIndexFetcher_def p parse_line_def sample_record_def
        get_prop_def js_or_def truthy_def)
qed

theorem getPackageVersions_latest_stable_witness:
  "\<exists>pv s'. getPackageVersions sample_Date sample_JSON_parse (serve indexWithPrerelease) 0
              new_ModuleIndexFetcher ''test/pkg''
            = (Inr (Some pv), s', [indexUrl])
      \<and> size (mset (versions pv)) = 3
      \<and> sorted_wrt (not_older sample_Date) (versions pv)
      \<and> latest pv = Some ''v1.9.0''"
proof -
  let ?b = "\<lparr>version = Some ''v2.0.0-beta.1'', timestamp = Some ''2023-12-01T00:00:00Z''\<rparr>"
  let ?s = "\<lparr>version = Some ''v1.9.0'', timestamp = Some ''2023-11-01T00:00:00Z''\<rparr>"
  let ?a = "\<lparr>version = Some ''v2.0.0-alpha.1'', timestamp = Some ''2023-10-01T00:00:00Z''\<rparr>"
  note idx = prerelease_index
  have h2: "\<exists>m \<in> set [\<lparr>version = Some ''v2.0.0-beta.1'', timestamp = Some ''2023-12-01T00:00:00Z'', path = Some ''test/pkg''\<rparr>,
             \<lparr>version = Some ''v1.9.0'', timestamp = Some ''2023-11-01T00:00:00Z'', path = Some ''test/pkg''\<rparr>,
             \<lparr>version = Some ''v2.0.0-alpha.1'', timestamp = Some ''2023-10-01T00:00:00Z'', path = Some ''test/pkg''\<rparr>].
            path m = Some ''test/pkg''"
    by simp
  have h3: "\<forall>m \<in> set [\<lparr>version = Some ''v2.0.0-beta.1'', timestamp = Some ''2023-12-01T00:00:00Z'', path = Some ''test/pkg''\<rparr>,
             \<lparr>version = Some ''v1.9.0'', timestamp = Some ''2023-11-01T00:00:00Z'', path = Some ''test/pkg''\<rparr>,
             \<lparr>version = Some ''v2.0.0-alpha.1'', timestamp = Some ''2023-10-01T00:00:00Z'', path = Some ''test/pkg''\<rparr>].
            path m = Some ''test/pkg'' \<longrightarrow>
              version m \<noteq> None \<and> getTime sample_Date (timestamp m) \<noteq> None"
    by (simp add: getTime_def sample_Date_def)
  from getPackageVersions_latest_stable [OF idx h2 h3]
  obtain pv where pv:
    "getPackageVersions sample_Date sample_JSON_parse (serve indexWithPrerelease) 0
        new_ModuleIndexFetcher ''test/pkg''
      = (Inr (Some pv),
         \<lparr>cachedIndex = Some
            [\<lparr>version = Some ''v2.0.0-beta.1'', timestamp = Some ''2023-12-01T00:00:00Z'', path = Some ''test/pkg''\<rparr>,
             \<lparr>version = Some ''v1.9.0'', timestamp = Some ''2023-11-01T00:00:00Z'', path = Some ''test/pkg''\<rparr>,
             \<lparr>version = Some ''v2.0.0-alpha.1'', timestamp = Some ''2023-10-01T00:00:00Z'', path = Some ''test/pkg''\<rparr>],
          lastFetchTime = 0\<rparr>, [indexUrl])"
    "mset (versions pv) = {#?b, ?s, ?a#}"
    "sorted_wrt (not_older sample_Date) (versions pv)"
    "\<exists>v \<in> set (versions pv). latest pv = version v
            \<and> (if \<exists>u \<in> set (versions pv). hyphen_free u
                then hyphen_free v
                  \<and> (\<forall>w \<in> set (versions pv). hyphen_free w \<longrightarrow> not_older sample_Date v w)
                else (\<forall>w \<in> set (versions pv). not_older sample_Date v w))"
    by auto
  have "set (versions pv) = {?b, ?s, ?a}"
    using pv(2) by (metis set_mset_mset set_mset_add_mset_insert set_mset_empty)
  then have "latest pv = Some ''v1.9.0''"
    using pv(4) by (auto simp: hyphen_free_def split: if_splits)
  moreover have "size (mset (versions pv)) = 3"
    using pv(2) by simp
  ultimately show ?thesis using pv(1,3) by blast
qed

section \<open>Properties of the Document Cache\<close>

lemma DocumentationCache_set_returns:
  "\<exists>b c'. DocumentationCache_set nc key v ttl_arg now c = (Inr b, c')"
  by (cases "nc_set nc key \<lparr>data = v, entry_timestamp = now, ttl = num_or ttl_arg (defaultTTL c)\<rparr>
             (num_or ttl_arg (defaultTTL c)) now (cache c)")
    (auto simp: DocumentationCache_set_def try_catch_def Let_def split: sum.splits)

text \<open>
  C5.  Whatever the underlying store does, \<open>get\<close> and \<open>set\<close> of the Document Cache
  return: \<open>get\<close> returns a value or \<^verbatim>\<open>undefined\<close>, and \<^verbatim>\<open>undefined\<close> when the store's
  \<^verbatim>\<open>get\<close> throws; \<open>set\<close> returns a boolean, and \<^verbatim>\<open>false\<close> when the store's \<^verbatim>\<open>set\<close>
  throws.
\<close>

theorem DocumentationCache_get_set_never_throw:
  "(\<exists>r c'. DocumentationCache_get nc key now c = (Inr r, c'))
   \<and> (\<forall>e s. nc_get nc key now (cache c) = (Inl e, s) \<longrightarrow>
         fst (DocumentationCache_get nc key now c) = Inr None)
   \<and> (\<exists>b c'. DocumentationCache_set nc key v ttl_arg now c = (Inr b, c'))
   \<and> (\<forall>e s. nc_set nc key \<lparr>data = v, entry_timestamp = now, ttl = num_or ttl_arg (defaultTTL c)\<rparr>
               (num_or ttl_arg (defaultTTL c)) now (cache c) = (Inl e, s) \<longrightarrow>
         fst (DocumentationCache_set nc key v ttl_arg now c) = Inr False)"
proof (intro conjI allI impI)
  show "\<exists>r c'. DocumentationCache_get nc key now c = (Inr r, c')"
    by (cases "nc_get nc key now (cache c)")
      (auto simp: DocumentationCache_get_def try_catch_def split: sum.splits option.splits)
next
  fix e s
  assume "nc_get nc key now (cache c) = (Inl e, s)"
  then show "fst (DocumentationCache_get nc key now c) = Inr None"
    by (simp add: DocumentationCache_get_def try_catch_def)
next
  show "\<exists>b c'. DocumentationCache_set nc key v ttl_arg now c = (Inr b, c')"
    by (cases "nc_set nc key \<lparr>data = v, entry_timestamp = now, ttl = num_or ttl_arg (defaultTTL c)\<rparr>
               (num_or ttl_arg (defaultTTL c)) now (cache c)")
      (auto simp: DocumentationCache_set_def try_catch_def Let_def split: sum.splits)
next
  fix e s
  assume "nc_set nc key \<lparr>data = v, entry_timestamp = now, ttl = num_or ttl_arg (defaultTTL c)\<rparr>
               (num_or ttl_arg (defaultTTL c)) now (cache c) = (Inl e, s)"
  then show "fst (DocumentationCache_set nc key v ttl_arg now c) = Inr False"
    by (simp add: DocumentationCache_set_def try_catch_def Let_def)
qed

theorem DocumentationCache_get_set_never_throw_witness:
  "fst (DocumentationCache_get throwing_store ''any-key'' 0
          (new_DocumentationCache throwing_store None :: string CacheEntry Store DocumentationCache))
     = Inr None
   \<and> fst (DocumentationCache_set throwing_store ''any-key'' ''any-value'' None 0
          (new_DocumentationCache throwing_store None))
     = Inr False"
proof -
  let ?c = "new_DocumentationCache throwing_store None :: string CacheEntry Store DocumentationCache"
  have g: "nc_get throwing_store ''any-key'' 0 (cache ?c) = (Inl (Error ''Internal error''), cache ?c)"
    by (simp add: throwing_store_def)
  have s: "nc_set throwing_store ''any-key''
             \<lparr>data = ''any-value'', entry_timestamp = 0, ttl = num_or None (defaultTTL ?c)\<rparr>
             (num_or None (defaultTTL ?c)) 0 (cache ?c)
           = (Inl (Error ''Internal error''), cache ?c)"
    by (simp add: throwing_store_def)
  from DocumentationCache_get_set_never_throw
         [of throwing_store "''any-key''" 0 ?c "''any-value''" None] g s
  show ?thesis by blast
qed

text \<open>
  The store rejecting a write: a cache constructed with the maximum \<open>1\<close> over the
  rejecting store accepts the first key and answers \<^verbatim>\<open>false\<close> to the second.
\<close>

lemma set_into_full_store_example:
  "fst (DocumentationCache_set (node_cache rejecting) ''key2'' ''value2'' None 1
          (snd (DocumentationCache_set (node_cache rejecting) ''key1'' ''value1'' None 0
                  (new_DocumentationCache (node_cache rejecting)
                     (Some \<lparr>opt_stdTTL = Some 60, opt_checkperiod = None, opt_maxKeys = Some 1\<rparr>)))))
     = Inr False"
  by (simp add: DocumentationCache_set_def try_catch_def new_DocumentationCache_def node_cache_def
      store_new_def store_set_def store_put_def store_keys_def rejecting_def num_or_def Let_def)

subsection \<open>The capacity bound\<close>

lemma map_of_None_iff: "(map_of xs k = None) = (k \<notin> fst ` set xs)"
  by (simp add: map_of_eq_None_iff)

lemma length_filter_remove:
  "distinct (map fst xs) \<Longrightarrow> k \<in> fst ` set xs
   \<Longrightarrow> Suc (length (filter (\<lambda>kv. fst kv \<noteq> k) xs)) = length xs"
proof (induction xs)
  case Nil
  then show ?case by simp
next
  case (Cons x xs)
  show ?case
  proof (cases "fst x = k")
    case True
    then have "k \<notin> fst ` set xs" using Cons.prems(1) by auto
    then have "filter (\<lambda>kv. fst kv \<noteq> k) xs = xs"
      by (intro filter_True) auto
    with True show ?thesis by simp
  next
    case False
    with Cons show ?thesis by auto
  qed
qed

lemma distinct_filter_fst: "distinct (map fst xs) \<Longrightarrow> distinct (map fst (filter P xs))"
  by (simp add: distinct_map_filter)

lemma store_del_options: "store_options (snd (store_del pol k s)) = store_options s"
  by (simp add: store_del_def split: option.splits)

lemma store_del_inv: "store_inv s \<Longrightarrow> store_inv (snd (store_del pol k s))"
proof (cases "map_of (store_data s) k")
  case None
  assume "store_inv s"
  with None show ?thesis by (simp add: store_del_def)
next
  case (Some vt)
  assume inv: "store_inv s"
  have "k \<in> fst ` set (store_data s)"
    using Some map_of_None_iff [of "store_data s" k] by auto
  then have len: "Suc (length (filter (\<lambda>kv. fst kv \<noteq> k) (store_data s))) = length (store_data s)"
    using inv by (intro length_filter_remove) (simp_all add: store_inv_def)
  with inv Some show ?thesis
    by (cases vt) (auto simp: store_del_def store_inv_def distinct_filter_fst)
qed

lemma store_del_length:
  "store_inv s \<Longrightarrow> k \<in> set (store_keys s)
   \<Longrightarrow> Suc (length (store_data (snd (store_del pol k s)))) = length (store_data s)"
proof -
  assume inv: "store_inv s" and k: "k \<in> set (store_keys s)"
  then have "k \<in> fst ` set (store_data s)" by (simp add: store_keys_def)
  moreover from this obtain vt where "map_of (store_data s) k = Some vt"
    using map_of_None_iff [of "store_data s" k] by auto
  ultimately show ?thesis
    using inv length_filter_remove [of "store_data s" k]
    by (cases vt) (simp add: store_del_def store_inv_def)
qed

lemma store_put_options: "store_options (store_put pol k v t s) = store_options s"
  by (simp add: store_put_def split: option.splits prod.splits)

lemma map_fst_replace: "map (fst \<circ> (\<lambda>kv. if fst kv = k then (k, w) else kv)) xs = map fst xs"
  by (induction xs) auto

lemma store_put_inv:
  assumes "distinct (map fst (store_data s))" and "keys (store_stats s) = length (store_data s)"
    and "0 \<le> maxKeys (store_options s) \<longrightarrow> int (length (store_data s)) < maxKeys (store_options s)"
  shows "store_inv (store_put pol k v t s)"
proof (cases "map_of (store_data s) k")
  case None
  then have "k \<notin> fst ` set (store_data s)"
    using map_of_None_iff [of "store_data s" k] by simp
  with None assms show ?thesis
    by (auto simp: store_put_def store_inv_def)
next
  case (Some vt)
  with assms show ?thesis
    by (cases vt) (auto simp: store_put_def store_inv_def map_fst_replace)
qed

lemma store_set_options: "store_options (snd (store_set pol k v ttl_s now s)) = store_options s"
  by (simp add: store_set_def Let_def store_put_options store_del_options split: option.splits)

lemma store_set_inv:
  assumes inv: "store_inv s"
  shows "store_inv (snd (store_set pol k v ttl_s now s))"
proof -
  let ?t = "if ttl_s = 0 then 0 else now + ttl_s * 1000"
  let ?full = "0 \<le> maxKeys (store_options s) \<and> maxKeys (store_options s) \<le> int (keys (store_stats s))"
  show ?thesis
  proof (cases ?full)
    case False
    then have "store_inv (store_put pol k v ?t s)"
      using inv by (intro store_put_inv) (auto simp: store_inv_def)
    moreover have "store_set pol k v ttl_s now s = (Inr True, store_put pol k v ?t s)"
      using False unfolding store_set_def Let_def by (rule if_not_P)
    ultimately show ?thesis by simp
  next
    case True
    show ?thesis
    proof (cases "on_full pol (store_keys s) k")
      case None
      with True inv show ?thesis by (simp add: store_set_def Let_def)
    next
      case (Some victim)
      show ?thesis
      proof (cases "victim \<in> set (store_keys s)")
        case False
        with True Some inv show ?thesis by (simp add: store_set_def Let_def)
      next
        case in_keys: True
        let ?s' = "snd (store_del pol victim s)"
        have inv': "store_inv ?s'" using inv by (rule store_del_inv)
        have "Suc (length (store_data ?s')) = length (store_data s)"
          using inv in_keys by (rule store_del_length)
        then have "store_inv (store_put pol k v ?t ?s')"
          using inv inv' by (intro store_put_inv) (auto simp: store_inv_def store_del_options)
        with True Some in_keys show ?thesis by (simp add: store_set_def Let_def)
      qed
    qed
  qed
qed

lemma count_inv: "store_inv (count_hit s) = store_inv s" "store_inv (count_miss s) = store_inv s"
  by (simp_all add: count_hit_def count_miss_def store_inv_def)

lemma count_options:
  "store_options (count_hit s) = store_options s" "store_options (count_miss s) = store_options s"
  by (simp_all add: count_hit_def count_miss_def)

lemma store_get_inv: "store_inv s \<Longrightarrow> store_inv (snd (store_get pol k now s))"
  by (auto simp: store_get_def count_inv store_del_inv split: option.splits)

lemma store_get_options: "store_options (snd (store_get pol k now s)) = store_options s"
  by (auto simp: store_get_def count_options store_del_options split: option.splits)

lemma store_has_inv: "store_inv s \<Longrightarrow> store_inv (snd (store_has pol k now s))"
  by (auto simp: store_has_def store_del_inv split: option.splits)

lemma store_has_options: "store_options (snd (store_has pol k now s)) = store_options s"
  by (auto simp: store_has_def store_del_options split: option.splits)

lemma store_flushAll_inv: "store_inv s \<Longrightarrow> store_inv (store_flushAll s)"
  by (auto simp: store_flushAll_def store_inv_def)

lemma store_flushAll_options: "store_options (store_flushAll s) = store_options s"
  by (simp add: store_flushAll_def)

lemma store_sweep_aux:
  "store_inv s \<Longrightarrow>
   store_inv (foldl (\<lambda>s' kv. if expired now (snd (snd kv)) then snd (store_del pol (fst kv) s') else s') s xs)
   \<and> store_options (foldl (\<lambda>s' kv. if expired now (snd (snd kv)) then snd (store_del pol (fst kv) s') else s') s xs)
       = store_options s"
  by (induction xs arbitrary: s) (auto simp: store_del_inv store_del_options)

lemma store_sweep_inv: "store_inv s \<Longrightarrow> store_inv (store_sweep pol now s)"
  unfolding store_sweep_def using store_sweep_aux by blast

lemma store_sweep_options: "store_inv s \<Longrightarrow> store_options (store_sweep pol now s) = store_options s"
  unfolding store_sweep_def using store_sweep_aux by blast

lemma apply_op_inv:
  assumes "store_inv (cache c)"
  shows "store_inv (cache (apply_op pol c step))
     \<and> store_options (cache (apply_op pol c step)) = store_options (cache c)"
proof (cases step)
  case (Pair now op)
  show ?thesis
  proof (cases op)
    case (OpGet k)
    obtain r s where g: "store_get pol k now (cache c) = (r, s)" by (cases "store_get pol k now (cache c)")
    have "store_inv s" "store_options s = store_options (cache c)"
      using g assms store_get_inv [of "cache c" pol k now] store_get_options [of pol k now "cache c"]
      by simp_all
    with Pair OpGet g show ?thesis
      by (cases r) (auto simp: apply_op_def DocumentationCache_get_def try_catch_def node_cache_def
          split: option.splits)
  next
    case (OpSet k v t)
    let ?e = "\<lparr>data = v, entry_timestamp = now, ttl = num_or t (defaultTTL c)\<rparr>"
    obtain r s where g: "store_set pol k ?e (num_or t (defaultTTL c)) now (cache c) = (r, s)"
      by (cases "store_set pol k ?e (num_or t (defaultTTL c)) now (cache c)")
    have "store_inv s" "store_options s = store_options (cache c)"
      using g assms store_set_inv [of "cache c" pol k ?e "num_or t (defaultTTL c)" now]
        store_set_options [of pol k ?e "num_or t (defaultTTL c)" now "cache c"]
      by simp_all
    with Pair OpSet g show ?thesis
      by (cases r) (auto simp: apply_op_def DocumentationCache_set_def try_catch_def node_cache_def Let_def)
  next
    case (OpHas k)
    with Pair assms show ?thesis
      using store_has_inv [of "cache c" pol k now] store_has_options [of pol k now "cache c"]
      by (auto simp: apply_op_def DocumentationCache_has_def node_cache_def split: prod.splits)
  next
    case (OpDelete k)
    with Pair assms show ?thesis
      using store_del_inv [of "cache c" pol k] store_del_options [of pol k "cache c"]
      by (auto simp: apply_op_def DocumentationCache_delete_def node_cache_def split: prod.splits)
  next
    case OpClear
    with Pair assms show ?thesis
      by (auto simp: apply_op_def DocumentationCache_clear_def node_cache_def store_flushAll_inv
          store_flushAll_options)
  next
    case OpSweep
    with Pair assms show ?thesis
      by (auto simp: apply_op_def store_sweep_inv store_sweep_options)
  qed
qed

lemma run_ops_inv:
  "store_inv (cache c) \<Longrightarrow>
   store_inv (cache (run_ops pol c steps))
   \<and> store_options (cache (run_ops pol c steps)) = store_options (cache c)"
  unfolding run_ops_def
proof (induction steps arbitrary: c)
  case Nil
  then show ?case by simp
next
  case (Cons step steps)
  from apply_op_inv [OF Cons.prems, of pol step]
  have "store_inv (cache (apply_op pol c step))"
    and o: "store_options (cache (apply_op pol c step)) = store_options (cache c)"
    by simp_all
  from Cons.IH [OF this(1)] o show ?case by simp
qed

lemma new_DocumentationCache_inv:
  assumes "0 \<le> num_or (Option.bind options opt_maxKeys) 1000"
  shows "store_inv (cache (new_DocumentationCache (node_cache pol) options))
     \<and> maxKeys (store_options (cache (new_DocumentationCache (node_cache pol) options)))
         = num_or (Option.bind options opt_maxKeys) 1000"
  using assms
  by (simp add: new_DocumentationCache_def node_cache_def store_new_def store_inv_def Let_def)

lemma keys_bounded:
  assumes "0 \<le> num_or (Option.bind options opt_maxKeys) 1000"
  shows "int (keys (DocumentationCache_getStats (node_cache pol)
                (run_ops pol (new_DocumentationCache (node_cache pol) options) steps)))
         \<le> num_or (Option.bind options opt_maxKeys) 1000"
proof -
  let ?init = "new_DocumentationCache (node_cache pol) options"
  let ?c = "run_ops pol ?init steps"
  have "store_inv (cache ?init)"
    and m: "maxKeys (store_options (cache ?init)) = num_or (Option.bind options opt_maxKeys) 1000"
    using new_DocumentationCache_inv [OF assms, of pol] by simp_all
  then have "store_inv (cache ?c)" "store_options (cache ?c) = store_options (cache ?init)"
    using run_ops_inv [of ?init pol steps] by simp_all
  with m assms have "int (length (store_data (cache ?c))) \<le> num_or (Option.bind options opt_maxKeys) 1000"
    by (simp add: store_inv_def)
  then show ?thesis
    by (simp add: DocumentationCache_getStats_def node_cache_def store_keys_def)
qed

text \<open>
  C8, as stated, fails for a cache constructed with the maximum \<open>0\<close>: the constructor
  replaces a falsy maximum by the default \<open>1000\<close>, so one write leaves one key.
\<close>

theorem keys_exceed_zero_maximum:
  "\<not> int (keys (DocumentationCache_getStats (node_cache rejecting)
              (run_ops rejecting
                 (new_DocumentationCache (node_cache rejecting)
                    (Some \<lparr>opt_stdTTL = Some 60, opt_checkperiod = None, opt_maxKeys = Some 0\<rparr>))
                 [(0, OpSet ''key1'' ''value1'' None)])))
     \<le> 0"
  by (simp add: DocumentationCache_getStats_def run_ops_def apply_op_def new_DocumentationCache_def
      DocumentationCache_set_def try_catch_def node_cache_def store_new_def store_set_def
      store_put_def store_keys_def num_or_def Let_def)

text \<open>
  C8, amended.  For a Document Cache constructed with a maximum key count of at least
  \<open>1\<close>, whatever the store does with a write when it is full, \<open>getStats().keys\<close> never
  exceeds that maximum after any sequence of operations; a cache constructed with the
  maximum \<open>0\<close>, or with none, is bounded by the default \<open>1000\<close>.
\<close>

theorem keys_never_exceed_positive_maximum:
  "(opt_maxKeys opts = Some m \<and> 1 \<le> m \<longrightarrow>
      int (keys (DocumentationCache_getStats (node_cache pol)
             (run_ops pol (new_DocumentationCache (node_cache pol) (Some opts)) steps))) \<le> m)
   \<and> (Option.bind options opt_maxKeys = None \<or> Option.bind options opt_maxKeys = Some 0 \<longrightarrow>
      int (keys (DocumentationCache_getStats (node_cache pol)
             (run_ops pol (new_DocumentationCache (node_cache pol) options) steps))) \<le> 1000)"
proof (intro conjI impI)
  assume "opt_maxKeys opts = Some m \<and> 1 \<le> m"
  then have "num_or (Option.bind (Some opts) opt_maxKeys) 1000 = m"
    by (auto simp: num_or_def)
  moreover from this have "0 \<le> num_or (Option.bind (Some opts) opt_maxKeys) 1000"
    using \<open>opt_maxKeys opts = Some m \<and> 1 \<le> m\<close> by simp
  ultimately show "int (keys (DocumentationCache_getStats (node_cache pol)
             (run_ops pol (new_DocumentationCache (node_cache pol) (Some opts)) steps))) \<le> m"
    using keys_bounded [of "Some opts" pol steps] by simp
next
  assume "Option.bind options opt_maxKeys = None \<or> Option.bind options opt_maxKeys = Some 0"
  then have "num_or (Option.bind options opt_maxKeys) 1000 = 1000"
    by (auto simp: num_or_def)
  then show "int (keys (DocumentationCache_getStats (node_cache pol)
             (run_ops pol (new_DocumentationCache (node_cache pol) options) steps))) \<le> 1000"
    using keys_bounded [of options pol steps] by simp
qed

theorem keys_never_exceed_positive_maximum_witness:
  "opt_maxKeys \<lparr>opt_stdTTL = Some 60, opt_checkperiod = None, opt_maxKeys = Some 3\<rparr> = Some 3
   \<and> (1::int) \<le> 3
   \<and> int (keys (DocumentationCache_getStats (node_cache rejecting)
             (run_ops rejecting
                (new_DocumentationCache (node_cache rejecting)
                   (Some \<lparr>opt_stdTTL = Some 60, opt_checkperiod = None, opt_maxKeys = Some 3\<rparr>))
                [(0, OpSet ''key1'' ''value1'' None), (1, OpSet ''key2'' ''value2'' None),
                 (2, OpSet ''key3'' ''value3'' None), (3, OpSet ''key4'' ''value4'' None)]))) \<le> 3
   \<and> Option.bind (None :: CacheOptions option) opt_maxKeys = None
   \<and> int (keys (DocumentationCache_getStats (node_cache rejecting)
             (run_ops rejecting (new_DocumentationCache (node_cache rejecting) None)
                [(0, OpSet ''key1'' ''value1'' None), (1, OpGet ''key1'')]))) \<le> 1000"
proof -
  have h: "opt_maxKeys \<lparr>opt_stdTTL = Some 60, opt_checkperiod = None, opt_maxKeys = Some 3\<rparr> = Some 3
      \<and> (1::int) \<le> 3"
    by simp
  have k: "Option.bind (None :: CacheOptions option) opt_maxKeys = None"
    by simp
  from keys_never_exceed_positive_maximum
         [of "\<lparr>opt_stdTTL = Some 60, opt_checkperiod = None, opt_maxKeys = Some 3\<rparr>" 3 rejecting
             "[(0, OpSet ''key1'' ''value1'' None), (1, OpSet ''key2'' ''value2'' None),
               (2, OpSet ''key3'' ''value3'' None), (3, OpSet ''key4'' ''value4'' None)]"]
    h
  have a: "int (keys (DocumentationCache_getStats (node_cache rejecting)
             (run_ops rejecting
                (new_DocumentationCache (node_cache rejecting)
                   (Some \<lparr>opt_stdTTL = Some 60, opt_checkperiod = None, opt_maxKeys = Some 3\<rparr>))
                [(0, OpSet ''key1'' ''value1'' None), (1, OpSet ''key2'' ''value2'' None),
                 (2, OpSet ''key3'' ''value3'' None), (3, OpSet ''key4'' ''value4'' None)]))) \<le> 3"
    by blast
  from keys_never_exceed_positive_maximum
         [of _ _ rejecting "[(0, OpSet ''key1'' ''value1'' None), (1, OpGet ''key1'')]" None] k
  have b: "int (keys (DocumentationCache_getStats (node_cache rejecting)
             (run_ops rejecting (new_DocumentationCache (node_cache rejecting) None)
                [(0, OpSet ''key1'' ''value1'' None), (1, OpGet ''key1'')]))) \<le> 1000"
    by blast
  from h k a b show ?thesis by blast
qed

section \<open>Properties of the Document Extractor\<close>

lemma scan_function_step:
  "scan_function fn (sg, d, e) el =
     (if h4_id el = Some fn
      then (trim (declaration_text el), trim (content_text el), foldl push_example e (exampleDetails el))
      else (sg, d, e))"
  by (simp add: scan_function_def)

lemma scan_function_empty:
  "\<forall>el \<in> set els. h4_id el = Some fn \<longrightarrow> trim (declaration_text el) = []
   \<Longrightarrow> fst (foldl (scan_function fn) ([], d, e) els) = []"
proof (induction els arbitrary: d e)
  case Nil
  then show ?case by simp
next
  case (Cons el els)
  then show ?case by (cases "h4_id el = Some fn") (simp_all add: scan_function_step)
qed

lemma scan_function_origin:
  "fst (foldl (scan_function fn) (sig0, d, e) els) = s
   \<Longrightarrow> s = sig0 \<or> (\<exists>el \<in> set els. h4_id el = Some fn \<and> trim (declaration_text el) = s)"
proof (induction els arbitrary: sig0 d e)
  case Nil
  then show ?case by simp
next
  case (Cons el els)
  show ?case
  proof (cases "h4_id el = Some fn")
    case True
    with Cons.prems
    have "fst (foldl (scan_function fn)
              (trim (declaration_text el), trim (content_text el), foldl push_example e (exampleDetails el))
              els) = s"
      by (simp add: scan_function_step)
    from Cons.IH [OF this] True show ?thesis by auto
  next
    case False
    with Cons.prems have "fst (foldl (scan_function fn) (sig0, d, e) els) = s"
      by (simp add: scan_function_step)
    from Cons.IH [OF this] show ?thesis by auto
  qed
qed

text \<open>
  C6.  On a page that was fetched: when no element whose identifier is the function name
  has a non-empty signature, the call fails with the \<open>NOT_FOUND\<close> error whose message
  names the function and the package, thrown as it is; a call that returns a document
  returns the non-empty signature of an element with that identifier; an exception of the
  DOM query is rethrown as it is when its code is \<open>NOT_FOUND\<close> and wrapped into a
  \<open>PARSE_ERROR\<close> otherwise.
\<close>

theorem getFunctionDoc_not_found_unless_signature:
  assumes "fetchHTML net (package_url pkg ver) = Inr html"
  shows "(\<forall>els. query_functions html = Inr els
            \<and> (\<forall>el \<in> set els. h4_id el = Some fn \<longrightarrow> trim (declaration_text el) = [])
          \<longrightarrow> GoDocFetcher_getFunctionDoc query_functions net pkg fn ver
                = Inl (Exn ''Error'' (''Function '' @ fn @ '' not found in '' @ pkg)
                         (Some ''NOT_FOUND'') None))
     \<and> (\<forall>doc. GoDocFetcher_getFunctionDoc query_functions net pkg fn ver = Inr doc
          \<longrightarrow> signature doc \<noteq> []
              \<and> (\<exists>els el. query_functions html = Inr els \<and> el \<in> set els
                    \<and> h4_id el = Some fn \<and> trim (declaration_text el) = signature doc))
     \<and> (\<forall>e. query_functions html = Inl e
          \<longrightarrow> GoDocFetcher_getFunctionDoc query_functions net pkg fn ver
                = Inl (if code e = Some ''NOT_FOUND'' then e
                       else Exn ''Error'' ''Failed to parse function documentation''
                              (Some ''PARSE_ERROR'') (Some e)))"
    (is "?absent \<and> ?found \<and> ?thrown")
proof -
  have absent: ?absent
  proof (intro allI impI)
    fix els
    assume a: "query_functions html = Inr els
            \<and> (\<forall>el \<in> set els. h4_id el = Some fn \<longrightarrow> trim (declaration_text el) = [])"
    then have "fst (foldl (scan_function fn) ([], [], []) els) = []"
      by (intro scan_function_empty) simp
    then have "getFunctionDoc_try (Inr els) pkg fn
        = Inl (GoDocError ''NOT_FOUND'' (''Function '' @ fn @ '' not found in '' @ pkg) None)"
      by (cases "foldl (scan_function fn) ([], [], []) els") (simp add: getFunctionDoc_try_def)
    with a assms
    show "GoDocFetcher_getFunctionDoc query_functions net pkg fn ver
            = Inl (Exn ''Error'' (''Function '' @ fn @ '' not found in '' @ pkg) (Some ''NOT_FOUND'') None)"
      by (simp add: GoDocFetcher_getFunctionDoc_def GoDocError_def)
  qed
  have found: ?found
  proof (intro allI impI)
    fix doc
    assume r: "GoDocFetcher_getFunctionDoc query_functions net pkg fn ver = Inr doc"
    then have t: "getFunctionDoc_try (query_functions html) pkg fn = Inr doc"
      using assms by (auto simp: GoDocFetcher_getFunctionDoc_def split: sum.splits if_splits)
    then obtain els where els: "query_functions html = Inr els"
      by (cases "query_functions html") (auto simp: getFunctionDoc_try_def)
    obtain sg d e where f: "foldl (scan_function fn) ([], [], []) els = (sg, d, e)"
      by (cases "foldl (scan_function fn) ([], [], []) els") auto
    with t els have sg: "sg \<noteq> []" "signature doc = sg"
      by (auto simp: getFunctionDoc_try_def split: if_splits)
    from f have "fst (foldl (scan_function fn) ([], [], []) els) = sg" by simp
    from scan_function_origin [OF this] sg
    have "\<exists>el \<in> set els. h4_id el = Some fn \<and> trim (declaration_text el) = signature doc"
      by auto
    with sg els
    show "signature doc \<noteq> []
        \<and> (\<exists>els el. query_functions html = Inr els \<and> el \<in> set els
              \<and> h4_id el = Some fn \<and> trim (declaration_text el) = signature doc)"
      by auto
  qed
  have thrown: ?thrown
  proof (intro allI impI)
    fix e
    assume "query_functions html = Inl e"
    with assms
    show "GoDocFetcher_getFunctionDoc query_functions net pkg fn ver
            = Inl (if code e = Some ''NOT_FOUND'' then e
                   else Exn ''Error'' ''Failed to parse function documentation''
                          (Some ''PARSE_ERROR'') (Some e))"
      by (simp add: GoDocFetcher_getFunctionDoc_def getFunctionDoc_try_def GoDocError_def)
  qed
  from absent found thrown show ?thesis by (intro conjI)
qed

lemma fetchHTML_serve: "fetchHTML (serve html) url = Inr html"
  by (simp add: fetchHTML_def fetchHTML_try_def serve_def ok_def)

theorem getFunctionDoc_not_found_unless_signature_witness:
  "GoDocFetcher_getFunctionDoc fmt_functions (serve ''<html>'') ''fmt'' ''ThisFunctionDoesNotExist'' None
     = Inl (Exn ''Error'' ''Function ThisFunctionDoesNotExist not found in fmt'' (Some ''NOT_FOUND'') None)
   \<and> (\<exists>doc. GoDocFetcher_getFunctionDoc fmt_functions (serve ''<html>'') ''fmt'' ''Printf'' None = Inr doc
         \<and> signature doc = ''func Printf(format string, a ...any) (n int, err error)'')
   \<and> GoDocFetcher_getFunctionDoc broken_functions (serve ''<html>'') ''fmt'' ''Printf'' None
     = Inl (Exn ''Error'' ''Failed to parse function documentation'' (Some ''PARSE_ERROR'')
              (Some (TypeError ''Cannot read properties of undefined'')))"
proof -
  have page: "fetchHTML (serve ''<html>'') (package_url ''fmt'' None) = Inr ''<html>''"
    by (rule fetchHTML_serve)
  have tr: "trim (declaration_text printf_element)
      = ''func Printf(format string, a ...any) (n int, err error)''"
    by (simp add: printf_element_def trim_def is_space_def)
  have a: "fmt_functions ''<html>'' = Inr [printf_element]
      \<and> (\<forall>el \<in> set [printf_element]. h4_id el = Some ''ThisFunctionDoesNotExist''
             \<longrightarrow> trim (declaration_text el) = [])"
    by (simp add: fmt_functions_def printf_element_def)
  from getFunctionDoc_not_found_unless_signature [OF page, of fmt_functions "''ThisFunctionDoesNotExist''"] a
  have first: "GoDocFetcher_getFunctionDoc fmt_functions (serve ''<html>'') ''fmt'' ''ThisFunctionDoesNotExist'' None
     = Inl (Exn ''Error'' ''Function ThisFunctionDoesNotExist not found in fmt'' (Some ''NOT_FOUND'') None)"
    by auto
  obtain doc where doc:
    "GoDocFetcher_getFunctionDoc fmt_functions (serve ''<html>'') ''fmt'' ''Printf'' None = Inr doc"
    using tr
    by (simp add: GoDocFetcher_getFunctionDoc_def getFunctionDoc_try_def fetchHTML_serve fmt_functions_def
        scan_function_step printf_element_def)
  from getFunctionDoc_not_found_unless_signature [OF page, of fmt_functions "''Printf''"] doc
  have "\<exists>els el. fmt_functions ''<html>'' = Inr els \<and> el \<in> set els
          \<and> h4_id el = Some ''Printf'' \<and> trim (declaration_text el) = signature doc"
    by blast
  then have second: "signature doc = ''func Printf(format string, a ...any) (n int, err error)''"
    using tr by (auto simp: fmt_functions_def)
  have b: "broken_functions ''<html>'' = Inl (TypeError ''Cannot read properties of undefined'')"
    by (simp add: broken_functions_def)
  from getFunctionDoc_not_found_unless_signature [OF page, of broken_functions "''Printf''"] b
  have third: "GoDocFetcher_getFunctionDoc broken_functions (serve ''<html>'') ''fmt'' ''Printf'' None
     = Inl (Exn ''Error'' ''Failed to parse function documentation'' (Some ''PARSE_ERROR'')
              (Some (TypeError ''Cannot read properties of undefined'')))"
    by (auto simp: TypeError_def)
  from first doc second third show ?thesis by blast
qed

subsection \<open>The selector loop of the search\<close>

lemma push_result_step:
  "push_result (results, found) el =
     (if usable el \<and> el_path el \<notin> sr_path ` set results
      then (results @ [entry el], True) else (results, found))"
  by (auto simp: push_result_def usable_def entry_def)

lemma foldl_push_result:
  "foldl push_result (acc, f0) els = (rs, f) \<Longrightarrow>
   \<exists>new. rs = acc @ new
     \<and> set new \<subseteq> entry ` {el \<in> set els. usable el}
     \<and> f = (f0 \<or> new \<noteq> [])
     \<and> sr_path ` set rs = sr_path ` set acc \<union> el_path ` {el \<in> set els. usable el}
     \<and> (distinct (map sr_path acc) \<longrightarrow> distinct (map sr_path rs))"
proof (induction els arbitrary: acc f0)
  case Nil
  then show ?case by auto
next
  case (Cons el els)
  show ?case
  proof (cases "usable el \<and> el_path el \<notin> sr_path ` set acc")
    case True
    with Cons.prems have "foldl push_result (acc @ [entry el], True) els = (rs, f)"
      by (simp add: push_result_step)
    from Cons.IH [OF this] obtain new where new:
      "rs = (acc @ [entry el]) @ new"
      "set new \<subseteq> entry ` {el \<in> set els. usable el}"
      "f = (True \<or> new \<noteq> [])"
      "sr_path ` set rs = sr_path ` set (acc @ [entry el]) \<union> el_path ` {el \<in> set els. usable el}"
      "distinct (map sr_path (acc @ [entry el])) \<longrightarrow> distinct (map sr_path rs)"
      by blast
    have d: "distinct (map sr_path acc) \<longrightarrow> distinct (map sr_path (acc @ [entry el]))"
      using True by (auto simp: entry_def)
    show ?thesis
    proof (intro exI [of _ "entry el # new"] conjI)
      show "rs = acc @ entry el # new" using new(1) by simp
      show "set (entry el # new) \<subseteq> entry ` {e \<in> set (el # els). usable e}"
        using new(2) True by auto
      show "f = (f0 \<or> entry el # new \<noteq> [])" using new(3) by simp
      show "sr_path ` set rs = sr_path ` set acc \<union> el_path ` {e \<in> set (el # els). usable e}"
        using new(4) True by (auto simp: entry_def)
      show "distinct (map sr_path acc) \<longrightarrow> distinct (map sr_path rs)"
        using new(5) d by blast
    qed
  next
    case False
    with Cons.prems have "foldl push_result (acc, f0) els = (rs, f)"
      by (auto simp: push_result_step)
    from Cons.IH [OF this] obtain new where new:
      "rs = acc @ new"
      "set new \<subseteq> entry ` {el \<in> set els. usable el}"
      "f = (f0 \<or> new \<noteq> [])"
      "sr_path ` set rs = sr_path ` set acc \<union> el_path ` {el \<in> set els. usable el}"
      "distinct (map sr_path acc) \<longrightarrow> distinct (map sr_path rs)"
      by blast
    have "usable el \<longrightarrow> el_path el \<in> sr_path ` set rs"
      using False new(4) by auto
    then have "sr_path ` set rs = sr_path ` set acc \<union> el_path ` {e \<in> set (el # els). usable e}"
      using new(4) by auto
    with new show ?thesis
      by (intro exI [of _ new]) auto
  qed
qed

lemma foldl_push_result_fresh:
  assumes "foldl push_result ([], False) els = (rs, f)"
  shows "set rs \<subseteq> entry ` {el \<in> set els. usable el}"
    and "el_path ` {el \<in> set els. usable el} \<subseteq> sr_path ` set rs"
    and "distinct (map sr_path rs)"
    and "f = (\<exists>el \<in> set els. usable el)"
proof -
  from foldl_push_result [OF assms] have p:
    "set rs \<subseteq> entry ` {el \<in> set els. usable el}"
    "f = (rs \<noteq> [])"
    "sr_path ` set rs = el_path ` {el \<in> set els. usable el}"
    "distinct (map sr_path rs)"
    by auto
  show "set rs \<subseteq> entry ` {el \<in> set els. usable el}" by (rule p(1))
  show "el_path ` {el \<in> set els. usable el} \<subseteq> sr_path ` set rs" using p(3) by simp
  show "distinct (map sr_path rs)" by (rule p(4))
  have "(rs \<noteq> []) = (sr_path ` set rs \<noteq> {})" by simp
  also have "\<dots> = (\<exists>el \<in> set els. usable el)" unfolding p(3) by auto
  finally show "f = (\<exists>el \<in> set els. usable el)" using p(2) by simp
qed

lemma foldl_push_result_none:
  assumes "\<forall>el \<in> set els. \<not> usable el"
  shows "foldl push_result ([], False) els = ([], False)"
proof -
  obtain rs f where r: "foldl push_result ([], False) els = (rs, f)"
    by (cases "foldl push_result ([], False) els") auto
  have "{el \<in> set els. usable el} = {}" using assms by auto
  with foldl_push_result_fresh(1,4) [OF r] assms have "rs = []" "f = False" by simp_all
  with r show ?thesis by simp
qed

lemma search_loop_skips:
  assumes "\<forall>p \<in> set pre. \<exists>els. select p = Inr els \<and> (\<forall>el \<in> set els. \<not> usable el)"
  shows "search_loop select (pre @ rest) [] =
     (case search_loop select rest [] of Inl e \<Rightarrow> Inl e | Inr (rs, tried) \<Rightarrow> Inr (rs, pre @ tried))"
  using assms
proof (induction pre)
  case Nil
  then show ?case by (auto split: sum.splits)
next
  case (Cons p pre)
  then obtain els where els: "select p = Inr els" "\<forall>el \<in> set els. \<not> usable el"
    by auto
  have "foldl push_result ([], False) els = ([], False)"
    using els(2) by (rule foldl_push_result_none)
  with els(1) Cons show ?case
    by (auto split: sum.splits)
qed

lemma search_loop_stops:
  assumes "select s = Inr els" and "\<exists>el \<in> set els. usable el"
  shows "search_loop select (s # post) [] = Inr (fst (foldl push_result ([], False) els), [s])"
proof -
  obtain rs f where r: "foldl push_result ([], False) els = (rs, f)"
    by (cases "foldl push_result ([], False) els") auto
  from foldl_push_result_fresh(4) [OF r] assms(2) have "f" by simp
  with r assms(1) show ?thesis by simp
qed

text \<open>
  C7, as stated, fails: on the sample page the selector \<^verbatim>\<open>.SearchSnippet\<close> matches an
  element, yet the loop goes on to the next selector, and the result comes from there.
\<close>

theorem search_continues_past_matching_selector:
  \<open>sample_select ''.SearchSnippet'' = Inr [bare_snippet]
   \<and> search_loop sample_select searchSelectors []
       = Inr ([\<lparr>sr_path = ''github.com/gin-gonic/gin'', sr_name = ''gin'',
                 sr_synopsis = ''Gin is a web framework'', score = None\<rparr>],
              [''.SearchSnippet'', ''[data-test-id="snippet-title"]''])\<close>
proof -
  have bare: "\<not> usable bare_snippet"
    by (simp add: usable_def el_path_def bare_snippet_def)
  have gin: "el_path gin_snippet = ''github.com/gin-gonic/gin''" "el_name gin_snippet = ''gin''"
    "el_synopsis gin_snippet = ''Gin is a web framework''"
    by (simp_all add: el_path_def el_name_def el_synopsis_def gin_snippet_def str_or_def trim_def
        is_space_def)
  have first: "sample_select ''.SearchSnippet'' = Inr [bare_snippet]"
    by (simp add: sample_select_def)
  have second: \<open>sample_select ''[data-test-id="snippet-title"]'' = Inr [gin_snippet]\<close>
    by (simp add: sample_select_def)
  have "foldl push_result ([], False) [bare_snippet] = ([], False)"
    using bare by (simp add: push_result_step)
  moreover have "foldl push_result ([], False) [gin_snippet]
      = ([\<lparr>sr_path = ''github.com/gin-gonic/gin'', sr_name = ''gin'',
            sr_synopsis = ''Gin is a web framework'', score = None\<rparr>], True)"
    using gin by (simp add: push_result_def)
  ultimately show ?thesis
    using first second by (simp add: searchSelectors_def)
qed

text \<open>
  C7, amended.  On a fetched search page whose queries do not throw, the extractor tries
  the four candidate selectors in their fixed order and stops at the first selector that
  yields a usable element (one with a non-empty path and name): the results are the
  entries of usable elements of that selector, one for each path, and no other selector
  contributes; matched elements that are not usable do not stop the loop.  When no
  selector yields a usable element, all four are tried and the result is empty.
\<close>

theorem searchPackages_stops_at_first_usable:
  assumes "fetchHTML net (baseUrl @ ''/search?q='' @ encodeURIComponent q @ ''&limit='' @ show_int limit)
             = Inr html"
  shows "(\<forall>pre s post els.
            searchSelectors = pre @ s # post
            \<and> (\<forall>p \<in> set pre. \<exists>els'. query_select html p = Inr els' \<and> (\<forall>el \<in> set els'. \<not> usable el))
            \<and> query_select html s = Inr els \<and> (\<exists>el \<in> set els. usable el)
          \<longrightarrow> (\<exists>rs. search_loop (query_select html) searchSelectors [] = Inr (rs, pre @ [s])
                \<and> GoDocFetcher_searchPackages query_select encodeURIComponent net q limit = Inr rs
                \<and> set rs \<subseteq> entry ` {el \<in> set els. usable el}
                \<and> el_path ` {el \<in> set els. usable el} \<subseteq> sr_path ` set rs
                \<and> distinct (map sr_path rs)))
     \<and> ((\<forall>p \<in> set searchSelectors.
            \<exists>els'. query_select html p = Inr els' \<and> (\<forall>el \<in> set els'. \<not> usable el))
          \<longrightarrow> search_loop (query_select html) searchSelectors [] = Inr ([], searchSelectors)
              \<and> GoDocFetcher_searchPackages query_select encodeURIComponent net q limit = Inr [])"
    (is "?stops \<and> ?none")
proof -
  have stops: ?stops
  proof (intro allI impI)
    fix pre s post els
    assume a: "searchSelectors = pre @ s # post
            \<and> (\<forall>p \<in> set pre. \<exists>els'. query_select html p = Inr els' \<and> (\<forall>el \<in> set els'. \<not> usable el))
            \<and> query_select html s = Inr els \<and> (\<exists>el \<in> set els. usable el)"
    obtain rs f where r: "foldl push_result ([], False) els = (rs, f)"
      by (cases "foldl push_result ([], False) els") auto
    have "search_loop (query_select html) (s # post) [] = Inr (rs, [s])"
      using a r search_loop_stops [of "query_select html" s els post] by simp
    moreover have "search_loop (query_select html) (pre @ s # post) [] =
       (case search_loop (query_select html) (s # post) [] of
          Inl e \<Rightarrow> Inl e | Inr (rs, tried) \<Rightarrow> Inr (rs, pre @ tried))"
      using a by (intro search_loop_skips) simp
    ultimately have loop: "search_loop (query_select html) searchSelectors [] = Inr (rs, pre @ [s])"
      using a by simp
    then have "GoDocFetcher_searchPackages query_select encodeURIComponent net q limit = Inr rs"
      using assms by (simp add: GoDocFetcher_searchPackages_def)
    with loop foldl_push_result_fresh(1,2,3) [OF r]
    show "\<exists>rs. search_loop (query_select html) searchSelectors [] = Inr (rs, pre @ [s])
                \<and> GoDocFetcher_searchPackages query_select encodeURIComponent net q limit = Inr rs
                \<and> set rs \<subseteq> entry ` {el \<in> set els. usable el}
                \<and> el_path ` {el \<in> set els. usable el} \<subseteq> sr_path ` set rs
                \<and> distinct (map sr_path rs)"
      by blast
  qed
  have none: ?none
  proof (intro impI)
    assume "\<forall>p \<in> set searchSelectors.
            \<exists>els'. query_select html p = Inr els' \<and> (\<forall>el \<in> set els'. \<not> usable el)"
    from search_loop_skips [OF this, of "[]"]
    have loop: "search_loop (query_select html) searchSelectors [] = Inr ([], searchSelectors)"
      by simp
    then have "GoDocFetcher_searchPackages query_select encodeURIComponent net q limit = Inr []"
      using assms by (simp add: GoDocFetcher_searchPackages_def)
    with loop
    show "search_loop (query_select html) searchSelectors [] = Inr ([], searchSelectors)
        \<and> GoDocFetcher_searchPackages query_select encodeURIComponent net q limit = Inr []"
      by simp
  qed
  from stops none show ?thesis by (intro conjI)
qed

theorem searchPackages_stops_at_first_usable_witness:
  \<open>\<exists>rs. search_loop sample_select searchSelectors []
           = Inr (rs, [''.SearchSnippet'', ''[data-test-id="snippet-title"]''])
      \<and> GoDocFetcher_searchPackages (\<lambda>html. sample_select) (\<lambda>q. q) (serve ''<html>'') ''gin'' 10 = Inr rs
      \<and> sr_path ` set rs = {''github.com/gin-gonic/gin''}\<close>
proof -
  have page: "fetchHTML (serve ''<html>'')
      (baseUrl @ ''/search?q='' @ (\<lambda>q. q) ''gin'' @ ''&limit='' @ show_int 10) = Inr ''<html>''"
    by (rule fetchHTML_serve)
  have sels: \<open>searchSelectors
      = [''.SearchSnippet''] @ ''[data-test-id="snippet-title"]'' # [''.SearchResult'', ''article'']\<close>
    by (simp add: searchSelectors_def)
  have bare: "\<not> usable bare_snippet"
    by (simp add: usable_def el_path_def bare_snippet_def)
  have path: "el_path gin_snippet = ''github.com/gin-gonic/gin''"
    by (simp add: el_path_def gin_snippet_def)
  have "el_name gin_snippet = ''gin''"
    by (simp add: el_name_def gin_snippet_def str_or_def trim_def is_space_def)
  with path have gin: "usable gin_snippet"
    by (simp add: usable_def)
  have pre: \<open>\<forall>p \<in> set [''.SearchSnippet''].
      \<exists>els'. (\<lambda>html. sample_select) ''<html>'' p = Inr els' \<and> (\<forall>el \<in> set els'. \<not> usable el)\<close>
    using bare by (simp add: sample_select_def)
  have hit: \<open>(\<lambda>html. sample_select) ''<html>'' ''[data-test-id="snippet-title"]'' = Inr [gin_snippet]
      \<and> (\<exists>el \<in> set [gin_snippet]. usable el)\<close>
    using gin by (simp add: sample_select_def)
  from searchPackages_stops_at_first_usable
         [where net = "serve ''<html>''" and encodeURIComponent = "\<lambda>q. q" and q = "''gin''"
            and limit = 10 and html = "''<html>''" and query_select = "\<lambda>html. sample_select",
          OF page]
       sels pre hit
  obtain rs where rs:
    \<open>search_loop sample_select searchSelectors []
       = Inr (rs, [''.SearchSnippet''] @ [''[data-test-id="snippet-title"]''])\<close>
    "GoDocFetcher_searchPackages (\<lambda>html. sample_select) (\<lambda>q. q) (serve ''<html>'') ''gin'' 10 = Inr rs"
    "set rs \<subseteq> entry ` {el \<in> set [gin_snippet]. usable el}"
    "el_path ` {el \<in> set [gin_snippet]. usable el} \<subseteq> sr_path ` set rs"
    by blast
  have "sr_path ` set rs = {''github.com/gin-gonic/gin''}"
    using rs(3,4) gin path by (auto simp: entry_def)
  with rs(1,2) show ?thesis by auto
qed

section \<open>Properties of the Query Orchestrator\<close>

text \<open>
  C9.  The key of every case of the handler is an instance of the scheme: the kind of the
  tool, the package path (the query, for a search), the version after resolution when it
  is a non-empty string, and the symbol (the function or type name; the limit, for a
  search).  All six kinds are kinds of the scheme.
\<close>

theorem cacheKey_follows_scheme:
  "cacheKey (get_package_doc p v0) ver = key_scheme ''package'' p (qualifier ver) None
   \<and> cacheKey (get_function_doc p f v0) ver = key_scheme ''function'' p (qualifier ver) (Some f)
   \<and> cacheKey (get_type_doc p t v0) ver = key_scheme ''type'' p (qualifier ver) (Some t)
   \<and> cacheKey (search_packages q limit) ver
       = key_scheme ''search'' q None (Some (show_int (num_or limit 10)))
   \<and> cacheKey (get_package_examples p v0) ver = key_scheme ''examples'' p (qualifier ver) None
   \<and> cacheKey (get_package_versions p) ver = key_scheme ''versions'' p None None
   \<and> set [''package'', ''function'', ''type'', ''search'', ''examples'', ''versions''] \<subseteq> set key_kinds"
  by (cases ver) (simp_all add: key_scheme_def qualifier_def truthy_def key_kinds_def)

theorem cacheKey_follows_scheme_witness:
  "cacheKey (get_package_doc ''fmt'' (Some ''latest'')) (Some ''v1.9.1'') = ''package:fmt@v1.9.1''
   \<and> cacheKey (get_function_doc ''fmt'' ''Printf'' None) None = ''function:fmt:Printf''
   \<and> cacheKey (get_type_doc ''fmt'' ''Stringer'' (Some ''v1.0.0'')) (Some ''v1.0.0'')
       = ''type:fmt@v1.0.0:Stringer''
   \<and> cacheKey (get_package_examples ''fmt'' (Some ''latest'')) None = ''examples:fmt''
   \<and> cacheKey (get_package_versions ''fmt'') None = ''versions:fmt''"
proof -
  have q: "qualifier (Some ''v1.9.1'') = Some ''v1.9.1''" "qualifier (Some ''v1.0.0'') = Some ''v1.0.0''"
    "qualifier None = None"
    by (simp_all add: qualifier_def truthy_def)
  from cacheKey_follows_scheme [of "''fmt''" "Some ''latest''" "Some ''v1.9.1''"]
  have a: "cacheKey (get_package_doc ''fmt'' (Some ''latest'')) (Some ''v1.9.1'') = ''package:fmt@v1.9.1''"
    by (simp add: q key_scheme_def)
  from cacheKey_follows_scheme [of "''fmt''" None None "''Printf''"]
  have b: "cacheKey (get_function_doc ''fmt'' ''Printf'' None) None = ''function:fmt:Printf''"
    by (simp add: q key_scheme_def)
  from cacheKey_follows_scheme [of "''fmt''" "Some ''v1.0.0''" "Some ''v1.0.0''" _ "''Stringer''"]
  have c: "cacheKey (get_type_doc ''fmt'' ''Stringer'' (Some ''v1.0.0'')) (Some ''v1.0.0'')
       = ''type:fmt@v1.0.0:Stringer''"
    by (simp add: q key_scheme_def)
  from cacheKey_follows_scheme [of "''fmt''" "Some ''latest''" None]
  have d: "cacheKey (get_package_examples ''fmt'' (Some ''latest'')) None = ''examples:fmt''"
    "cacheKey (get_package_versions ''fmt'') None = ''versions:fmt''"
    by (simp_all add: q key_scheme_def)
  from a b c d show ?thesis by simp
qed






lemma ttl_of_request:
  "num_or (ttl_arg_of req) d
     = (case req of search_packages q l \<Rightarrow> 300 | get_package_versions p \<Rightarrow> 300 | _ \<Rightarrow> d)"
  by (cases req) (simp_all add: num_or_def)






lemma prerelease_latest:
  "\<exists>mi. getLatestVersion sample_Date sample_JSON_parse (serve indexWithPrerelease) 0
            new_ModuleIndexFetcher ''test/pkg''
         = (Inr (Some ''v1.9.0''), mi, [indexUrl])"
proof -
  have d: "getTime sample_Date (Some ''2023-12-01T00:00:00Z'') = Some 1701388800000"
    "getTime sample_Date (Some ''2023-11-01T00:00:00Z'') = Some 1698796800000"
    "getTime sample_Date (Some ''2023-10-01T00:00:00Z'') = Some 1696118400000"
    by (simp_all add: getTime_def sample_Date_def)
  have h: "includes_hyphen (Some ''v2.0.0-beta.1'') = Inr True"
    "includes_hyphen (Some ''v1.9.0'') = Inr False"
    "includes_hyphen (Some ''v2.0.0-alpha.1'') = Inr True"
    by (simp_all add: includes_hyphen_def)
  show ?thesis
    by (simp add: getLatestVersion_def getPackageVersions_def prerelease_index packageVersions_def
        versions_of_def array_sort_def newest_first_def d h js_or_def truthy_def Let_def)
qed





lemma map_of_store_put:
  "map_of (store_data (store_put pol key v t s)) key = Some (v, t)"
proof (cases "map_of (store_data s) key")
  case None
  show ?thesis by (simp add: store_put_def None map_add_def)
next
  case (Some old)
  have "map_of (map (\<lambda>kv. if fst kv = key then (key, w) else kv) xs) key = Some w"
    if "map_of xs key = Some o'" for xs :: "(string \<times> 'a \<times> int) list" and w o'
    using that by (induction xs) (auto split: if_splits)
  with Some show ?thesis by (cases old) (simp add: store_put_def)
qed

lemma accepted_write_is_read:
  assumes "\<not> (0 \<le> maxKeys (store_options (cache c))
              \<and> maxKeys (store_options (cache c)) \<le> int (keys (store_stats (cache c))))"
    and "num_or ttl_arg (defaultTTL c) \<noteq> 0"
    and "now' \<le> now + num_or ttl_arg (defaultTTL c) * 1000"
  shows "fst (DocumentationCache_get (node_cache pol) key now'
                (snd (DocumentationCache_set (node_cache pol) key v ttl_arg now c)))
         = Inr (Some v)"
proof -
  let ?T = "num_or ttl_arg (defaultTTL c)"
  let ?e = "\<lparr>data = v, entry_timestamp = now, ttl = ?T\<rparr>"
  have st: "store_set pol key ?e ?T now (cache c) = (Inr True, store_put pol key ?e (now + ?T * 1000) (cache c))"
    using assms(2) unfolding store_set_def Let_def if_not_P [OF assms(1)] by simp
  have "map_of (store_data (store_put pol key ?e (now + ?T * 1000) (cache c))) key
      = Some (?e, now + ?T * 1000)"
    by (rule map_of_store_put)
  then have "fst (store_get pol key now' (store_put pol key ?e (now + ?T * 1000) (cache c)))
      = Inr (Some ?e)"
    using assms(3) by (simp add: store_get_def expired_def)
  with st show ?thesis
    by (cases "store_get pol key now' (store_put pol key ?e (now + ?T * 1000) (cache c))")
      (simp add: DocumentationCache_get_def DocumentationCache_set_def try_catch_def node_cache_def
        Let_def)
qed



text \<open>
  Two more runs with the sample collaborators.  A package the index does not list is
  fetched with no version, under the key without qualifier; a request whose document is
  in the cache is answered from there, with no call on the extractor.
\<close>

lemma unlisted_latest:
  "\<exists>mi. getLatestVersion sample_Date sample_JSON_parse (serve indexWithPrerelease) 0
            new_ModuleIndexFetcher ''other/pkg''
         = (Inr None, mi, [indexUrl])"
  by (simp add: getLatestVersion_def getPackageVersions_def prerelease_index packageVersions_def
      versions_of_def array_sort_def Let_def)

lemma callTool_latest_unresolved_example:
  "\<exists>srv'. callTool sample_env (get_package_doc ''other/pkg'' (Some ''latest'')) sample_server
       = (Inr (PackageDocP sample_doc), srv',
          [GetLatestVersion ''other/pkg'', GetPackageDoc ''other/pkg'' None])
     \<and> docCache srv'
         = snd (DocumentationCache_set (node_cache rejecting) ''package:other/pkg''
                  (PackageDocP sample_doc) None 2
                  (snd (DocumentationCache_get (node_cache rejecting) ''package:other/pkg'' 1
                          (new_DocumentationCache (node_cache rejecting) None))))"
proof -
  obtain mi where lv:
    "getLatestVersion sample_Date sample_JSON_parse (serve indexWithPrerelease) 0
       new_ModuleIndexFetcher ''other/pkg'' = (Inr None, mi, [indexUrl])"
    using unlisted_latest by blast
  have res: "resolve_version sample_env new_ModuleIndexFetcher ''other/pkg'' (Some ''latest'')
      = (Inr None, mi, [GetLatestVersion ''other/pkg''])"
    using lv by (simp add: resolve_version_def sample_env_def js_or_def truthy_def)
  have get: "fst (DocumentationCache_get (node_cache rejecting) ''package:other/pkg'' 1
        (new_DocumentationCache (node_cache rejecting) None :: payload CacheEntry Store DocumentationCache))
      = Inr None"
    by (simp add: DocumentationCache_get_def try_catch_def
        new_DocumentationCache_def node_cache_def store_get_def store_new_def Let_def)
  obtain b c2 where st: "DocumentationCache_set (node_cache rejecting) ''package:other/pkg''
        (PackageDocP sample_doc) None 2
        (snd (DocumentationCache_get (node_cache rejecting) ''package:other/pkg'' 1
                (new_DocumentationCache (node_cache rejecting) None))) = (Inr b, c2)"
    using DocumentationCache_set_returns
            [of "node_cache rejecting" "''package:other/pkg''" "PackageDocP sample_doc" None 2
               "snd (DocumentationCache_get (node_cache rejecting) ''package:other/pkg'' 1
                       (new_DocumentationCache (node_cache rejecting) None))"]
    by blast
  show ?thesis
    using res get st
    by (cases "DocumentationCache_get (node_cache rejecting) ''package:other/pkg'' 1
        (new_DocumentationCache (node_cache rejecting) None :: payload CacheEntry Store DocumentationCache)")
      (simp add: callTool_def get_or_fetch_def sample_server_def sample_env_def truthy_def falsy_def
        perform_def)
qed

lemma callTool_cache_hit_example:
  "\<exists>srv'. callTool sample_env (get_package_doc ''test/pkg'' (Some ''latest''))
              \<lparr>moduleIndex = new_ModuleIndexFetcher,
               docCache = snd (DocumentationCache_set (node_cache rejecting) ''package:test/pkg@v1.9.0''
                                 (PackageDocP sample_doc) None 0
                                 (new_DocumentationCache (node_cache rejecting) None))\<rparr>
       = (Inr (PackageDocP sample_doc), srv', [GetLatestVersion ''test/pkg''])"
proof -
  obtain mi where lv:
    "getLatestVersion sample_Date sample_JSON_parse (serve indexWithPrerelease) 0
       new_ModuleIndexFetcher ''test/pkg'' = (Inr (Some ''v1.9.0''), mi, [indexUrl])"
    using prerelease_latest by blast
  have res: "resolve_version sample_env new_ModuleIndexFetcher ''test/pkg'' (Some ''latest'')
      = (Inr (Some ''v1.9.0''), mi, [GetLatestVersion ''test/pkg''])"
    using lv by (simp add: resolve_version_def sample_env_def js_or_def truthy_def)
  have get: "fst (DocumentationCache_get (node_cache rejecting) ''package:test/pkg@v1.9.0'' 1
        (snd (DocumentationCache_set (node_cache rejecting) ''package:test/pkg@v1.9.0''
                (PackageDocP sample_doc) None 0
                (new_DocumentationCache (node_cache rejecting) None))))
      = Inr (Some (PackageDocP sample_doc))"
    by (simp add: DocumentationCache_get_def DocumentationCache_set_def try_catch_def
        new_DocumentationCache_def node_cache_def store_get_def store_set_def store_put_def
        store_new_def num_or_def expired_def Let_def)
  show ?thesis
    using res get
    by (cases "DocumentationCache_get (node_cache rejecting) ''package:test/pkg@v1.9.0'' 1
        (snd (DocumentationCache_set (node_cache rejecting) ''package:test/pkg@v1.9.0''
                (PackageDocP sample_doc) None 0
                (new_DocumentationCache (node_cache rejecting) None)))")
      (simp add: callTool_def get_or_fetch_def sample_env_def truthy_def falsy_def)
qed

end
